theory Spec2Isabelle
  imports Complex_Main "HOL-Library.Sublist" "HOL-Library.AList" "HOL-Library.Multiset"
begin

section \<open>ClaudeScope usage sync: a model of scripts/hooks/sync-usage.js\<close>

text \<open>
  The development follows the source file function by function and keeps its names.
  Conventions of the model:
  \<^item> A JavaScript number that holds a token count is an \<open>int\<close>; a number that holds a
    rate or a cost is an exact rational (\<open>rat\<close>). The binary rounding of IEEE doubles is
    not part of the model: arithmetic is exact, and \<open>Math.round\<close> is \<open>\<lfloor>x + 1/2\<rfloor>\<close>. Where
    the exact sum of \<open>calculateCost\<close> lies exactly half-way between two millionths the
    model rounds up, while the code, which rounds a double, may return the lower one: for
    2 cache-write tokens at \<open>claude-opus-4.6\<close> rates the exact sum is 12.5 millionths, the
    double is 12.499999999999998, and the code returns 0.000012. The claim about the
    rounded formula therefore bounds the result by half a millionth on either side, which
    both neighbours satisfy.
  \<^item> An optional JSON field is an \<open>option\<close>; \<open>None\<close> stands for an absent (or null)
    field. The truthiness tests of the source are written out: a string is truthy when it
    is not empty, a number when it is not zero.
  \<^item> The ledger object is read with \<open>synced[sessionId]\<close>, which also finds the properties
    every object inherits from \<open>Object.prototype\<close>; the model of the ledger has them.
    \<open>PRICING\<close> is modelled by its own keys: \<open>calculateCost\<close> is only called with a result
    of \<open>getModelFamily\<close>, which is one of these keys.
  \<^item> Strings are \<open>char list\<close>s. All patterns the program searches for are ASCII.
\<close>

subsection \<open>Pricing table (USD per 1M tokens)\<close>

text \<open>
  One row of the table. The source names the fields \<open>input\<close>, \<open>output\<close>, \<open>cache_read\<close> and
  \<open>cache_write\<close>; the model uses the column names of the \<open>model_pricing\<close> table.
\<close>

record rates =
  input_per_m :: rat
  output_per_m :: rat
  cache_read_per_m :: rat
  cache_write_per_m :: rat

definition PRICING_default :: rates where
  "PRICING_default = \<lparr>input_per_m = 5, output_per_m = 25, cache_read_per_m = 1/2, cache_write_per_m = 25/4\<rparr>"

definition PRICING :: "(string \<times> rates) list" where
  "PRICING =
    [(''claude-opus-4.6'', \<lparr>input_per_m = 5, output_per_m = 25, cache_read_per_m = 1/2, cache_write_per_m = 25/4\<rparr>),
     (''claude-opus-4'', \<lparr>input_per_m = 15, output_per_m = 75, cache_read_per_m = 3/2, cache_write_per_m = 75/4\<rparr>),
     (''claude-sonnet-4'', \<lparr>input_per_m = 3, output_per_m = 15, cache_read_per_m = 3/10, cache_write_per_m = 15/4\<rparr>),
     (''claude-haiku-4.5'', \<lparr>input_per_m = 4/5, output_per_m = 4, cache_read_per_m = 2/25, cache_write_per_m = 1\<rparr>),
     (''default'', PRICING_default)]"

text \<open>The expression \<open>PRICING[modelFamily] || PRICING.default\<close>.\<close>

definition pricingFor :: "string \<Rightarrow> rates" where
  "pricingFor modelFamily =
     (case map_of PRICING modelFamily of Some p \<Rightarrow> p | None \<Rightarrow> PRICING_default)"

subsection \<open>Model family resolver\<close>

text \<open>\<open>String.prototype.includes\<close>: the pattern occurs at some position of the string.\<close>

fun str_includes :: "string \<Rightarrow> string \<Rightarrow> bool" where
  "str_includes [] pat = (pat = [])"
| "str_includes (c # s) pat = (prefix pat (c # s) \<or> str_includes s pat)"

definition getModelFamily :: "string \<Rightarrow> string" where
  "getModelFamily modelString =
     (if str_includes modelString ''opus-4-6'' then ''claude-opus-4.6''
      else if str_includes modelString ''opus'' then ''claude-opus-4''
      else if str_includes modelString ''haiku'' then ''claude-haiku-4.5''
      else if str_includes modelString ''sonnet'' then ''claude-sonnet-4''
      else ''default'')"

text \<open>The fixed set of family keys: the keys of the pricing table.\<close>

definition families :: "string list" where
  "families = map fst PRICING"

subsection \<open>Cost calculator\<close>

text \<open>
  A usage object. The fields are optional in the log (\<open>'n = int option\<close>); the session
  totals carry plain numbers (\<open>'n = int\<close>).
\<close>

record 'n usage =
  input_tokens :: 'n
  output_tokens :: 'n
  cache_creation_input_tokens :: 'n
  cache_read_input_tokens :: 'n

text \<open>The expression \<open>x || 0\<close> on an optional count.\<close>

fun or0 :: "int option \<Rightarrow> int" where
  "or0 None = 0"
| "or0 (Some n) = n"

definition Math_round :: "rat \<Rightarrow> int" where
  "Math_round x = \<lfloor>x + 1/2\<rfloor>"

definition normalInput :: "int option usage \<Rightarrow> int" where
  "normalInput u =
     or0 (input_tokens u) - or0 (cache_read_input_tokens u) - or0 (cache_creation_input_tokens u)"

text \<open>The four summands of \<open>cost\<close>, in the order of the source.\<close>

definition inputCost :: "int option usage \<Rightarrow> rates \<Rightarrow> rat" where
  "inputCost u p = of_int (max 0 (normalInput u)) / 1000000 * input_per_m p"

definition cacheWriteCost :: "int option usage \<Rightarrow> rates \<Rightarrow> rat" where
  "cacheWriteCost u p = of_int (or0 (cache_creation_input_tokens u)) / 1000000 * cache_write_per_m p"

definition cacheReadCost :: "int option usage \<Rightarrow> rates \<Rightarrow> rat" where
  "cacheReadCost u p = of_int (or0 (cache_read_input_tokens u)) / 1000000 * cache_read_per_m p"

definition outputCost :: "int option usage \<Rightarrow> rates \<Rightarrow> rat" where
  "outputCost u p = of_int (or0 (output_tokens u)) / 1000000 * output_per_m p"

text \<open>The constant \<open>cost\<close> of \<open>calculateCost\<close>: the sum before rounding.\<close>

definition unroundedCost :: "int option usage \<Rightarrow> rates \<Rightarrow> rat" where
  "unroundedCost u p = inputCost u p + cacheWriteCost u p + cacheReadCost u p + outputCost u p"

definition calculateCost :: "int option usage \<Rightarrow> string \<Rightarrow> rat" where
  "calculateCost u modelFamily =
     (let p = pricingFor modelFamily;
          cost = unroundedCost u p
      in of_int (Math_round (cost * 1000000)) / 1000000)"

subsection \<open>Log entries\<close>

text \<open>
  A line of a session file after \<open>JSON.parse\<close>. The record \<open>envelope\<close> is the shape
  \<open>{requestId, message: {usage, model}}\<close>, which occurs at the top level of an entry (the
  direct shape) and under \<open>entry.data.message\<close> (the nested shape). The field
  \<open>data_message\<close> stands for \<open>entry.data?.message\<close>: it is \<open>None\<close> when \<open>data\<close> or
  \<open>data.message\<close> is absent.
\<close>

record message_obj =
  usage :: "int option usage option"
  model :: "string option"

record envelope =
  requestId :: "string option"
  message :: "message_obj option"

record entry = envelope +
  timestamp :: "string option"
  data_message :: "envelope option"

text \<open>Truthiness of an optional string, and \<open>s || d\<close>.\<close>

fun truthy :: "string option \<Rightarrow> bool" where
  "truthy None = False"
| "truthy (Some s) = (s \<noteq> [])"

fun str_or :: "string option \<Rightarrow> string \<Rightarrow> string" where
  "str_or None d = d"
| "str_or (Some s) d = (if s = [] then d else s)"

subsection \<open>Session parser\<close>

text \<open>
  A value of \<open>requestMap\<close> is the object \<open>{usage, model}\<close>. The \<open>Map\<close> itself is an
  association list in insertion order: \<open>Map.prototype.set\<close> overwrites the value of a key
  that is present and keeps its position, and appends a new key, which is what
  \<open>AList.update\<close> does.
\<close>

type_synonym request = "int option usage \<times> string"

record session_times =
  sessionStart :: "string option"
  sessionEnd :: "string option"

record parse_state = session_times +
  requestMap :: "(string \<times> request) list"

text \<open>
  One of the two guarded \<open>requestMap.set\<close> calls of the loop body: the usage object must
  be present and the request identifier truthy.
\<close>

definition setRequest :: "'a envelope_scheme \<Rightarrow> (string \<times> request) list \<Rightarrow> (string \<times> request) list" where
  "setRequest e m =
     (case message e of
        None \<Rightarrow> m
      | Some msg \<Rightarrow>
          (case usage msg of
             None \<Rightarrow> m
           | Some u \<Rightarrow>
               (case requestId e of
                  None \<Rightarrow> m
                | Some r \<Rightarrow> if r = [] then m else AList.update r (u, str_or (model msg) ''unknown'') m)))"

text \<open>
  The body of the first loop. A line is \<open>None\<close> when \<open>JSON.parse\<close> throws on it (or
  yields \<open>null\<close>, so that the first property access throws): the \<open>catch\<close> skips it.
\<close>

definition parseLine :: "entry option \<Rightarrow> parse_state \<Rightarrow> parse_state" where
  "parseLine line st =
     (case line of
        None \<Rightarrow> st
      | Some e \<Rightarrow>
          (let st1 = (if truthy (timestamp e)
                      then st\<lparr>sessionStart := (if truthy (sessionStart st) then sessionStart st
                                                else timestamp e),
                              sessionEnd := timestamp e\<rparr>
                      else st);
               st2 = st1\<lparr>requestMap := setRequest e (requestMap st1)\<rparr>
           in (case data_message e of
                 None \<Rightarrow> st2
               | Some nested \<Rightarrow> st2\<lparr>requestMap := setRequest nested (requestMap st2)\<rparr>)))"

definition parseLines :: "entry option list \<Rightarrow> parse_state" where
  "parseLines lines =
     fold parseLine lines \<lparr>sessionStart = None, sessionEnd = None, requestMap = []\<rparr>"

text \<open>The value returned by \<open>parseSessionFile\<close>; it also serves as the state of the second loop.\<close>

record aggregate = session_times +
  totalUsage :: "int usage"
  totalCost :: rat
  primaryModel :: string
  modelCount :: "(string \<times> nat) list"
  modelCost :: "(string \<times> rat) list"

text \<open>\<open>obj[k] || 0\<close> on the two per-family objects.\<close>

definition count_or0 :: "(string \<times> nat) list \<Rightarrow> string \<Rightarrow> nat" where
  "count_or0 obj k = (case map_of obj k of None \<Rightarrow> 0 | Some n \<Rightarrow> n)"

definition cost_or0 :: "(string \<times> rat) list \<Rightarrow> string \<Rightarrow> rat" where
  "cost_or0 obj k = (case map_of obj k of None \<Rightarrow> 0 | Some c \<Rightarrow> c)"

text \<open>The body of the second loop, over \<open>requestMap.values()\<close>.\<close>

definition addRequest :: "request \<Rightarrow> aggregate \<Rightarrow> aggregate" where
  "addRequest req a =
     (let u = fst req; m = snd req;
          t = totalUsage a;
          t' = \<lparr>input_tokens = input_tokens t + or0 (input_tokens u),
                output_tokens = output_tokens t + or0 (output_tokens u),
                cache_creation_input_tokens =
                  cache_creation_input_tokens t + or0 (cache_creation_input_tokens u),
                cache_read_input_tokens =
                  cache_read_input_tokens t + or0 (cache_read_input_tokens u)\<rparr>;
          family = getModelFamily m;
          reqCost = calculateCost
            \<lparr>input_tokens = Some (or0 (input_tokens u)),
             output_tokens = Some (or0 (output_tokens u)),
             cache_creation_input_tokens = Some (or0 (cache_creation_input_tokens u)),
             cache_read_input_tokens = Some (or0 (cache_read_input_tokens u))\<rparr> family
      in a\<lparr>totalUsage := t',
           totalCost := totalCost a + reqCost,
           modelCount := AList.update family (count_or0 (modelCount a) family + 1) (modelCount a),
           modelCost := AList.update family (cost_or0 (modelCost a) family + reqCost) (modelCost a)\<rparr>)"

text \<open>
  \<open>Object.entries(modelCount).sort((a, b) => b[1] - a[1])[0]?.[0] || "unknown"\<close>: the sort
  is stable and descending in the count, so the first entry is the first-inserted family
  among those with the highest count.
\<close>

definition primaryOf :: "(string \<times> nat) list \<Rightarrow> string" where
  "primaryOf counts =
     (case sort_key (\<lambda>e. - int (snd e)) counts of
        [] \<Rightarrow> ''unknown''
      | e # _ \<Rightarrow> str_or (Some (fst e)) ''unknown'')"

definition parseSessionFile :: "entry option list \<Rightarrow> aggregate" where
  "parseSessionFile lines =
     (let st = parseLines lines;
          a = fold addRequest (map snd (requestMap st))
                \<lparr>sessionStart = sessionStart st, sessionEnd = sessionEnd st,
                 totalUsage = \<lparr>input_tokens = 0, output_tokens = 0,
                                cache_creation_input_tokens = 0, cache_read_input_tokens = 0\<rparr>,
                 totalCost = 0, primaryModel = ''unknown'', modelCount = [], modelCost = []\<rparr>
      in a\<lparr>primaryModel := primaryOf (modelCount a)\<rparr>)"

subsection \<open>Project name\<close>

text \<open>\<open>String.prototype.split\<close> on a one-character separator; the result is never empty.\<close>

fun split :: "char \<Rightarrow> string \<Rightarrow> string list" where
  "split sep [] = [[]]"
| "split sep (c # s) =
     (if c = sep then [] # split sep s
      else (case split sep s of [] \<Rightarrow> [[c]] | w # ws \<Rightarrow> (c # w) # ws))"

text \<open>\<open>Array.prototype.indexOf\<close>, with \<open>None\<close> for \<open>-1\<close>, and \<open>Array.prototype.pop\<close>.\<close>

fun indexOf :: "'a list \<Rightarrow> 'a \<Rightarrow> nat option" where
  "indexOf [] x = None"
| "indexOf (y # ys) x = (if y = x then Some 0 else map_option Suc (indexOf ys x))"

definition pop :: "'a list \<Rightarrow> 'a option" where
  "pop xs = (if xs = [] then None else Some (last xs))"

text \<open>
  A path is the list of its segments (\<open>dirPath.split(path.sep)\<close>). The \<open>catch\<close> branch of
  the source is unreachable: neither \<open>split\<close> nor \<open>pop\<close> throws on a string.
\<close>

definition extractProjectName :: "string list \<Rightarrow> string" where
  "extractProjectName parts =
     (case indexOf parts ''projects'' of
        None \<Rightarrow> ''unknown''
      | Some projectsIdx \<Rightarrow>
          if length parts > projectsIdx + 1
          then (let encoded = parts ! (projectsIdx + 1)
                in str_or (pop (split CHR ''-'' encoded)) encoded)
          else ''unknown'')"

subsection \<open>Environment: configuration, file system, clock and remote store\<close>

text \<open>
  The record sent to the remote store. Three fields are renamed because the names
  \<open>model\<close>, \<open>input_tokens\<close> and \<open>output_tokens\<close> are taken by the log entries.
\<close>

record upload_record =
  machine_id :: string
  session_id :: string
  record_model :: string
  project_slug :: string
  record_input_tokens :: int
  record_output_tokens :: int
  cache_write_tokens :: int
  cache_read_tokens :: int
  cost_usd :: rat
  session_start :: string
  session_end :: string

text \<open>
  The outcome of \<open>fetch\<close>: the promise rejects, or it resolves to a response with its
  \<open>ok\<close> flag, status and body text.
\<close>

datatype response = Rejected string | Response bool nat string

datatype error = UploadFailed nat string | FetchError string

text \<open>
  \<open>Date_now\<close> and \<open>fetch\<close> are oracles: \<open>Date_now env k\<close> is what the \<open>k\<close>-th call of
  \<open>Date.now()\<close> returns, \<open>fetch env k r\<close> is the outcome of posting \<open>r\<close> after \<open>k\<close>
  earlier posts. \<open>homedir\<close> holds the segments of \<open>os.homedir()\<close>.
\<close>

record env =
  DRY_RUN :: bool
  SUPABASE_URL :: string
  SUPABASE_SERVICE_KEY :: string
  MACHINE_ID :: string
  homedir :: "string list"
  Date_now :: "nat \<Rightarrow> int"
  fetch :: "nat \<Rightarrow> upload_record \<Rightarrow> response"

text \<open>
  A session file with the two \<open>stat\<close> times the driver reads (as ISO strings) and its
  lines, and an entry of the projects directory with its listing. File system calls are
  assumed not to throw.
\<close>

record session_file =
  fname :: string
  birthtime :: string
  mtime :: string
  content :: "entry option list"

record dirent =
  dname :: string
  isDirectory :: bool
  dfiles :: "session_file list"

text \<open>
  The ledger is a JSON object from session id to the time of the sync, kept in key order.
  The file on disk is \<open>None\<close> when it is missing or does not parse. The world holds what
  the driver can change outside itself: the ledger file, the posts sent to the remote
  store (oldest first), and the number of clock readings so far.
\<close>

type_synonym ledger = "(string \<times> int) list"

record world =
  ledgerFile :: "ledger option"
  posts :: "upload_record list"
  clock :: nat

text \<open>The local counters of \<open>syncAll\<close>, on top of the world.\<close>

record run = world +
  uploaded :: nat
  skipped :: nat
  grandTotal :: rat

subsection \<open>Sync ledger\<close>

text \<open>
  The \<open>try { JSON.parse(readFileSync(ledgerPath)) } catch { {} }\<close> of both ledger
  functions. The model covers a ledger file that is missing, is not valid JSON (both
  \<open>None\<close>) or holds a JSON object whose values are numbers; a file that holds another
  JSON value (\<open>null\<close>, an array, a number) is outside the model.
\<close>

fun readLedger :: "ledger option \<Rightarrow> ledger" where
  "readLedger None = []"
| "readLedger (Some l) = l"

definition getAlreadySynced :: "'a world_scheme \<Rightarrow> ledger" where
  "getAlreadySynced w = readLedger (ledgerFile w)"

text \<open>
  The names of the properties of \<open>Object.prototype\<close>, which a plain object (a parsed
  ledger or the \<open>{}\<close> of the \<open>catch\<close>) inherits. They come from the language, not from
  the source. Each of them reads as a function, or for \<open>__proto__\<close> as the prototype
  object, and so is truthy.
\<close>

definition objectPrototypeNames :: "string list" where
  "objectPrototypeNames =
     [''constructor'', ''__defineGetter__'', ''__defineSetter__'', ''hasOwnProperty'',
      ''__lookupGetter__'', ''__lookupSetter__'', ''isPrototypeOf'', ''propertyIsEnumerable'',
      ''toString'', ''valueOf'', ''__proto__'', ''toLocaleString'']"

text \<open>
  The assignment \<open>synced[sessionId] = Date.now()\<close> creates or overwrites the own property,
  except for \<open>__proto__\<close> when the object has no own property of that name: then the
  inherited setter runs, ignores the number, and the object is written back as it was.
\<close>

definition markSynced :: "env \<Rightarrow> string \<Rightarrow> 'a world_scheme \<Rightarrow> 'a world_scheme" where
  "markSynced e sessionId w =
     (let synced = readLedger (ledgerFile w);
          now = Date_now e (clock w);
          synced' = (if sessionId = ''__proto__'' \<and> map_of synced sessionId = None then synced
                     else AList.update sessionId now synced)
      in w\<lparr>ledgerFile := Some synced', clock := Suc (clock w)\<rparr>)"

text \<open>
  The test \<open>synced[sessionId]\<close>: an own entry counts when its number is not zero; without
  an own entry the lookup falls through to the inherited properties.
\<close>

definition isSynced :: "ledger \<Rightarrow> string \<Rightarrow> bool" where
  "isSynced synced sessionId =
     (case map_of synced sessionId of
        None \<Rightarrow> sessionId \<in> set objectPrototypeNames
      | Some t \<Rightarrow> t \<noteq> 0)"

subsection \<open>Upload\<close>

text \<open>
  \<open>uploadRecord\<close> sends one post and throws when the request is rejected or the response
  is not \<open>ok\<close>. The result pairs the new world with the error or unit.
\<close>

definition uploadRecord :: "env \<Rightarrow> upload_record \<Rightarrow> 'a world_scheme \<Rightarrow> 'a world_scheme \<times> (error + unit)" where
  "uploadRecord e record w =
     (let w' = w\<lparr>posts := posts w @ [record]\<rparr>
      in (case fetch e (length (posts w)) record of
            Rejected msg \<Rightarrow> (w', Inl (FetchError msg))
          | Response ok status body \<Rightarrow>
              if \<not> ok then (w', Inl (UploadFailed status body)) else (w', Inr ())))"

subsection \<open>Ingestion driver\<close>

definition endsWith :: "string \<Rightarrow> string \<Rightarrow> bool" where
  "endsWith s suf = suffix suf s"

text \<open>\<open>path.basename(file, ".jsonl")\<close> on a name that ends with \<open>.jsonl\<close>.\<close>

definition basename_jsonl :: "string \<Rightarrow> string" where
  "basename_jsonl f = take (length f - length ''.jsonl'') f"

definition getProjectsDir :: "env \<Rightarrow> string list" where
  "getProjectsDir e = homedir e @ [''.claude'', ''projects'']"

definition buildRecord :: "env \<Rightarrow> string \<Rightarrow> string \<Rightarrow> session_file \<Rightarrow> aggregate \<Rightarrow> upload_record" where
  "buildRecord e sessionId project f a =
     \<lparr>machine_id = MACHINE_ID e,
      session_id = sessionId,
      record_model = str_or (Some (primaryModel a)) ''unknown'',
      project_slug = project,
      record_input_tokens = input_tokens (totalUsage a),
      record_output_tokens = output_tokens (totalUsage a),
      cache_write_tokens = cache_creation_input_tokens (totalUsage a),
      cache_read_tokens = cache_read_input_tokens (totalUsage a),
      cost_usd = totalCost a,
      session_start = str_or (sessionStart a) (birthtime f),
      session_end = str_or (sessionEnd a) (mtime f)\<rparr>"

text \<open>
  The body of the inner loop, for one file of one project directory. \<open>synced\<close> is the
  ledger as read once at the start of the run. Console output is not modelled.
\<close>

definition processFile :: "env \<Rightarrow> ledger \<Rightarrow> string list \<Rightarrow> session_file \<Rightarrow> run \<Rightarrow> run" where
  "processFile e synced fullProjectDir f st =
     (let sessionId = basename_jsonl (fname f)
      in if isSynced synced sessionId then st\<lparr>skipped := skipped st + 1\<rparr>
         else
           (let a = parseSessionFile (content f)
            in if input_tokens (totalUsage a) = 0 \<and> output_tokens (totalUsage a) = 0
               then (let st1 = (if \<not> DRY_RUN e then markSynced e sessionId st else st)
                     in st1\<lparr>skipped := skipped st1 + 1\<rparr>)
               else
                 (let cost = totalCost a;
                      project = extractProjectName fullProjectDir;
                      st1 = st\<lparr>grandTotal := grandTotal st + cost\<rparr>;
                      record = buildRecord e sessionId project f a
                  in if DRY_RUN e then st1\<lparr>uploaded := uploaded st1 + 1\<rparr>
                     else
                       (case uploadRecord e record st1 of
                          (st2, Inr _) \<Rightarrow>
                            (let st3 = markSynced e sessionId st2
                             in st3\<lparr>uploaded := uploaded st3 + 1\<rparr>)
                        | (st2, Inl err) \<Rightarrow> st2))))"

text \<open>The body of the outer loop, for one entry of the projects directory.\<close>

definition processProjectDir :: "env \<Rightarrow> ledger \<Rightarrow> dirent \<Rightarrow> run \<Rightarrow> run" where
  "processProjectDir e synced d st =
     (let fullProjectDir = getProjectsDir e @ [dname d]
      in if \<not> isDirectory d then st
         else fold (processFile e synced fullProjectDir)
                (filter (\<lambda>f. endsWith (fname f) ''.jsonl'') (dfiles d)) st)"

text \<open>
  \<open>syncAll\<close>. The projects directory is \<open>None\<close> when it does not exist; otherwise it is
  the listing \<open>projectDirs\<close>. The result is the world after the run with the counters of
  the summary line.
\<close>

definition startRun :: "world \<Rightarrow> run" where
  "startRun w = world.extend w \<lparr>uploaded = 0, skipped = 0, grandTotal = 0\<rparr>"

definition syncAll :: "env \<Rightarrow> dirent list option \<Rightarrow> world \<Rightarrow> run" where
  "syncAll e projects w =
     (case projects of
        None \<Rightarrow> startRun w
      | Some projectDirs \<Rightarrow>
          (let synced = getAlreadySynced w
           in fold (processProjectDir e synced) projectDirs (startRun w)))"

text \<open>
  The main block: in dry-run mode an empty machine id becomes \<open>dry-run\<close>; otherwise a
  missing configuration value ends the process with status 1 (\<open>None\<close>) before \<open>syncAll\<close>.
\<close>

definition main :: "env \<Rightarrow> dirent list option \<Rightarrow> world \<Rightarrow> run option" where
  "main e projects w =
     (if DRY_RUN e
      then Some (syncAll (e\<lparr>MACHINE_ID := (if MACHINE_ID e = [] then ''dry-run'' else MACHINE_ID e)\<rparr>)
                   projects w)
      else if SUPABASE_URL e = [] \<or> SUPABASE_SERVICE_KEY e = [] \<or> MACHINE_ID e = [] then None
      else Some (syncAll e projects w))"

subsection \<open>Reference definitions for the deduplication by request identifier\<close>

text \<open>
  These definitions are not taken from the source: they say, in the words of the
  specification, what the session parser is compared with. \<open>carried e\<close> is the usage
  record that an envelope carries (none when the usage object is absent or the request
  identifier is not truthy); \<open>usageRecords\<close> lists the records of a file in file order,
  the direct shape of a line before its nested shape; \<open>lastRecords\<close> keeps, for every
  request identifier, the last record only; \<open>sumUsage\<close> adds usage objects field by field,
  an absent field counting 0.
\<close>

definition carried :: "'a envelope_scheme \<Rightarrow> (string \<times> request) list" where
  "carried e =
     (case (message e, requestId e) of
        (Some msg, Some r) \<Rightarrow>
          (case usage msg of
             Some u \<Rightarrow> if r \<noteq> [] then [(r, (u, str_or (model msg) ''unknown''))] else []
           | None \<Rightarrow> [])
      | _ \<Rightarrow> [])"

definition lineRecords :: "entry option \<Rightarrow> (string \<times> request) list" where
  "lineRecords line =
     (case line of
        None \<Rightarrow> []
      | Some e \<Rightarrow> carried e @ (case data_message e of None \<Rightarrow> [] | Some nested \<Rightarrow> carried nested))"

definition usageRecords :: "entry option list \<Rightarrow> (string \<times> request) list" where
  "usageRecords lines = concat (map lineRecords lines)"

fun lastRecords :: "(string \<times> request) list \<Rightarrow> (string \<times> request) list" where
  "lastRecords [] = []"
| "lastRecords (x # xs) =
     (if fst x \<in> set (map fst xs) then lastRecords xs else x # lastRecords xs)"

definition sumUsage :: "request list \<Rightarrow> int usage" where
  "sumUsage rs =
     \<lparr>input_tokens = (\<Sum>r\<leftarrow>rs. or0 (input_tokens (fst r))),
      output_tokens = (\<Sum>r\<leftarrow>rs. or0 (output_tokens (fst r))),
      cache_creation_input_tokens = (\<Sum>r\<leftarrow>rs. or0 (cache_creation_input_tokens (fst r))),
      cache_read_input_tokens = (\<Sum>r\<leftarrow>rs. or0 (cache_read_input_tokens (fst r)))\<rparr>"

text \<open>The cost of one request as the second loop computes it.\<close>

definition requestCost :: "request \<Rightarrow> rat" where
  "requestCost r =
     calculateCost
       \<lparr>input_tokens = Some (or0 (input_tokens (fst r))),
        output_tokens = Some (or0 (output_tokens (fst r))),
        cache_creation_input_tokens = Some (or0 (cache_creation_input_tokens (fst r))),
        cache_read_input_tokens = Some (or0 (cache_read_input_tokens (fst r)))\<rparr>
       (getModelFamily (snd r))"

subsection \<open>Notions used to state the properties of the driver\<close>

text \<open>
  These are not in the source. \<open>accepted e k r\<close> says that the post of \<open>r\<close> after \<open>k\<close>
  earlier posts succeeds, so that \<open>uploadRecord\<close> does not throw. \<open>visited e projectDirs\<close>
  lists, in the order of the two loops, the session files a run walks through, each with
  the path of its project directory. \<open>asUsage\<close> reads session totals as a usage object,
  to apply the cost calculator to them.
\<close>

definition accepted :: "env \<Rightarrow> nat \<Rightarrow> upload_record \<Rightarrow> bool" where
  "accepted e k r = (case fetch e k r of Rejected msg \<Rightarrow> False | Response ok status body \<Rightarrow> ok)"

definition visited :: "env \<Rightarrow> dirent list \<Rightarrow> (string list \<times> session_file) list" where
  "visited e projectDirs =
     concat (map (\<lambda>d. if isDirectory d
                         then map (\<lambda>f. (getProjectsDir e @ [dname d], f))
                                (filter (\<lambda>f. endsWith (fname f) ''.jsonl'') (dfiles d))
                         else []) projectDirs)"

definition asUsage :: "int usage \<Rightarrow> int option usage" where
  "asUsage t =
     \<lparr>input_tokens = Some (input_tokens t), output_tokens = Some (output_tokens t),
      cache_creation_input_tokens = Some (cache_creation_input_tokens t),
      cache_read_input_tokens = Some (cache_read_input_tokens t)\<rparr>"

subsection \<open>A sample run\<close>

text \<open>
  A small environment on which the properties below are instantiated: one project
  directory with a session whose two entries share a request identifier, a session that
  carries cache tokens only, a file that is not a session file, and a directory entry that
  is not a directory. The remote store accepts every post.
\<close>

definition sampleEntry :: "string \<Rightarrow> int option usage \<Rightarrow> entry" where
  "sampleEntry t u =
     \<lparr>requestId = Some ''req_1'',
      message = Some \<lparr>usage = Some u, model = Some ''claude-sonnet-4-20250514''\<rparr>,
      timestamp = Some t, data_message = None\<rparr>"

definition cacheOnlySession :: "entry option list" where
  "cacheOnlySession =
     [Some (sampleEntry ''2026-01-01T00:00:00Z''
        \<lparr>input_tokens = None, output_tokens = None,
         cache_creation_input_tokens = None, cache_read_input_tokens = Some 1\<rparr>)]"

definition sampleSession :: "entry option list" where
  "sampleSession =
     [Some (sampleEntry ''2026-01-01T00:00:00Z''
        \<lparr>input_tokens = Some 10, output_tokens = Some 5,
         cache_creation_input_tokens = None, cache_read_input_tokens = None\<rparr>),
      None,
      Some (sampleEntry ''2026-01-01T00:00:05Z''
        \<lparr>input_tokens = Some 100, output_tokens = Some 50,
         cache_creation_input_tokens = None, cache_read_input_tokens = Some 7\<rparr>)]"

definition sampleFile :: session_file where
  "sampleFile = \<lparr>fname = ''s1.jsonl'', birthtime = ''2026-01-01T00:00:00Z'',
     mtime = ''2026-01-01T00:01:00Z'', content = sampleSession\<rparr>"

definition cacheOnlyFile :: session_file where
  "cacheOnlyFile = \<lparr>fname = ''s2.jsonl'', birthtime = ''2026-01-02T00:00:00Z'',
     mtime = ''2026-01-02T00:01:00Z'', content = cacheOnlySession\<rparr>"

definition sampleProjects :: "dirent list" where
  "sampleProjects =
     [\<lparr>dname = ''-home-u-demo'', isDirectory = True,
       dfiles = [sampleFile,
                 \<lparr>fname = ''notes.txt'', birthtime = [], mtime = [], content = []\<rparr>,
                 cacheOnlyFile]\<rparr>,
      \<lparr>dname = ''.DS_Store'', isDirectory = False, dfiles = []\<rparr>]"

definition sampleEnv :: env where
  "sampleEnv =
     \<lparr>DRY_RUN = False, SUPABASE_URL = ''https://example.supabase.co'',
      SUPABASE_SERVICE_KEY = ''service-key'', MACHINE_ID = ''mac-home'',
      homedir = ['''', ''home'', ''u''],
      Date_now = (\<lambda>k. 1767225600000 + int k),
      fetch = (\<lambda>k r. Response True 201 [])\<rparr>"

text \<open>The same environment with a remote store that answers every post with status 500.\<close>

definition rejectingEnv :: env where
  "rejectingEnv = sampleEnv\<lparr>fetch := (\<lambda>k r. Response False 500 ''Internal Server Error'')\<rparr>"

definition sampleWorld :: world where
  "sampleWorld = \<lparr>ledgerFile = None, posts = [], clock = 0\<rparr>"

text \<open>A world whose ledger file is \<open>{"s1": 0}\<close>.\<close>

definition zeroLedgerWorld :: world where
  "zeroLedgerWorld = \<lparr>ledgerFile = Some [(''s1'', 0)], posts = [], clock = 0\<rparr>"



section \<open>Properties\<close>

subsection \<open>Helper facts: containment, rounding, the pricing table\<close>


lemma str_includes_sublist: "str_includes s pat \<longleftrightarrow> sublist pat s"
  by (induction s) (auto simp: sublist_Cons_right)

lemma Math_round_mono: "x \<le> y \<Longrightarrow> Math_round x \<le> Math_round y"
  unfolding Math_round_def by (intro floor_mono) simp

lemma Math_round_nonneg: "0 \<le> x \<Longrightarrow> 0 \<le> Math_round x"
  unfolding Math_round_def by simp

lemma Math_round_upper: "rat_of_int (Math_round x) \<le> x + 1/2"
  unfolding Math_round_def by simp

lemma Math_round_lower: "x - 1/2 < rat_of_int (Math_round x)"
  unfolding Math_round_def by linarith

lemma Math_round_pos_iff: "0 < Math_round x \<longleftrightarrow> 1/2 \<le> x"
  unfolding Math_round_def by (simp add: floor_less_iff less_floor_iff) linarith

lemma floor_rat_divide_numeral:
  "\<lfloor>(numeral a :: rat) / numeral b\<rfloor> = numeral a div numeral b"
  using floor_divide_of_int_eq [of "numeral a" "numeral b", where ?'a = rat] by simp

lemma pricingFor_cases:
  "pricingFor fam \<in> snd ` set PRICING"
  by (simp add: pricingFor_def PRICING_def PRICING_default_def)

lemma pricingFor_rates:
  "0 \<le> input_per_m (pricingFor fam)"
  "0 \<le> output_per_m (pricingFor fam)"
  "0 \<le> cache_read_per_m (pricingFor fam)"
  "0 \<le> cache_write_per_m (pricingFor fam)"
  "input_per_m (pricingFor fam) \<le> cache_write_per_m (pricingFor fam)"
  by (simp_all add: pricingFor_def PRICING_def PRICING_default_def)


subsection \<open>Cost calculator\<close>

lemma calculateCost_unrounded:
  "calculateCost u fam = of_int (Math_round (unroundedCost u (pricingFor fam) * 1000000)) / 1000000"
  by (simp add: calculateCost_def Let_def)

lemma pricingFor_rows:
  "pricingFor modelFamily =
     (if modelFamily = ''claude-opus-4.6''
      then \<lparr>input_per_m = 5, output_per_m = 25, cache_read_per_m = 1/2, cache_write_per_m = 25/4\<rparr>
      else if modelFamily = ''claude-opus-4''
      then \<lparr>input_per_m = 15, output_per_m = 75, cache_read_per_m = 3/2, cache_write_per_m = 75/4\<rparr>
      else if modelFamily = ''claude-sonnet-4''
      then \<lparr>input_per_m = 3, output_per_m = 15, cache_read_per_m = 3/10, cache_write_per_m = 15/4\<rparr>
      else if modelFamily = ''claude-haiku-4.5''
      then \<lparr>input_per_m = 4/5, output_per_m = 4, cache_read_per_m = 2/25, cache_write_per_m = 1\<rparr>
      else \<lparr>input_per_m = 5, output_per_m = 25, cache_read_per_m = 1/2, cache_write_per_m = 25/4\<rparr>)"
  by (simp add: pricingFor_def PRICING_def PRICING_default_def)

text \<open>
  Claim C3. For every usage tuple and family, \<open>calculateCost\<close> returns the sum
  \<open>max(0, input - cacheRead - cacheWrite)/1e6 * inputRate + cacheWrite/1e6 * cacheWriteRate
  + cacheRead/1e6 * cacheReadRate + output/1e6 * outputRate\<close> rounded to 6 decimal places:
  the result is a whole number of millionths and lies within half a millionth of the sum,
  on either side. The rates are those of the row of the family in the pricing table,
  written out here for the five keys, and those of the \<open>default\<close> row for any other
  family. For the usage \<open>{input: 1000, output: 500, cache write: 200, cache read: 100}\<close>
  and the family \<open>claude-sonnet-4\<close> (rates 3, 15, 0.3, 3.75) the result is 0.01038.
\<close>

theorem calculateCost_rounded_formula:
  "(let i = or0 (input_tokens u); out = or0 (output_tokens u);
        cw = or0 (cache_creation_input_tokens u); cr = or0 (cache_read_input_tokens u);
        rate =
          (if modelFamily = ''claude-opus-4.6''
           then \<lparr>input_per_m = 5, output_per_m = 25, cache_read_per_m = 1/2,
                  cache_write_per_m = 25/4\<rparr>
           else if modelFamily = ''claude-opus-4''
           then \<lparr>input_per_m = 15, output_per_m = 75, cache_read_per_m = 3/2,
                  cache_write_per_m = 75/4\<rparr>
           else if modelFamily = ''claude-sonnet-4''
           then \<lparr>input_per_m = 3, output_per_m = 15, cache_read_per_m = 3/10,
                  cache_write_per_m = 15/4\<rparr>
           else if modelFamily = ''claude-haiku-4.5''
           then \<lparr>input_per_m = 4/5, output_per_m = 4, cache_read_per_m = 2/25,
                  cache_write_per_m = 1\<rparr>
           else \<lparr>input_per_m = 5, output_per_m = 25, cache_read_per_m = 1/2,
                  cache_write_per_m = 25/4\<rparr>);
        cost = rat_of_int (max 0 (i - cr - cw)) / 1000000 * input_per_m rate
             + rat_of_int cw / 1000000 * cache_write_per_m rate
             + rat_of_int cr / 1000000 * cache_read_per_m rate
             + rat_of_int out / 1000000 * output_per_m rate
    in (\<exists>k::int. calculateCost u modelFamily = of_int k / 1000000)
       \<and> cost - 1 / 2000000 \<le> calculateCost u modelFamily
       \<and> calculateCost u modelFamily \<le> cost + 1 / 2000000)
   \<and> calculateCost \<lparr>input_tokens = Some 1000, output_tokens = Some 500,
          cache_creation_input_tokens = Some 200, cache_read_input_tokens = Some 100\<rparr>
        ''claude-sonnet-4'' = 1038 / 100000"
proof -
  define c where "c = unroundedCost u (pricingFor modelFamily)"
  have r: "calculateCost u modelFamily = of_int (Math_round (c * 1000000)) / 1000000"
    by (simp add: c_def calculateCost_unrounded)
  have lo: "c - 1 / 2000000 \<le> calculateCost u modelFamily"
    using Math_round_lower [of "c * 1000000"] by (simp add: r field_simps)
  have hi: "calculateCost u modelFamily \<le> c + 1 / 2000000"
    using Math_round_upper [of "c * 1000000"] by (simp add: r field_simps)
  have ex: "\<exists>k::int. calculateCost u modelFamily = of_int k / 1000000"
    using r by blast
  have c_eq: "c = rat_of_int (max 0 (or0 (input_tokens u) - or0 (cache_read_input_tokens u)
                    - or0 (cache_creation_input_tokens u))) / 1000000 * input_per_m (pricingFor modelFamily)
             + rat_of_int (or0 (cache_creation_input_tokens u)) / 1000000 * cache_write_per_m (pricingFor modelFamily)
             + rat_of_int (or0 (cache_read_input_tokens u)) / 1000000 * cache_read_per_m (pricingFor modelFamily)
             + rat_of_int (or0 (output_tokens u)) / 1000000 * output_per_m (pricingFor modelFamily)"
    by (simp add: c_def unroundedCost_def inputCost_def cacheWriteCost_def cacheReadCost_def
        outputCost_def normalInput_def)
  have p: "pricingFor ''claude-sonnet-4'' =
        \<lparr>input_per_m = 3, output_per_m = 15, cache_read_per_m = 3/10, cache_write_per_m = 15/4\<rparr>"
    by (simp add: pricingFor_def PRICING_def)
  have e: "calculateCost \<lparr>input_tokens = Some 1000, output_tokens = Some 500,
          cache_creation_input_tokens = Some 200, cache_read_input_tokens = Some 100\<rparr>
        ''claude-sonnet-4'' = 1038 / 100000"
    by (simp add: calculateCost_def p unroundedCost_def inputCost_def cacheWriteCost_def cacheReadCost_def
        outputCost_def normalInput_def Math_round_def Let_def floor_rat_divide_numeral)
  show ?thesis
    unfolding Let_def pricingFor_rows [symmetric] using ex lo hi e unfolding c_eq by blast
qed

text \<open>
  Claim C4. For non-negative token counts and every family the cost is not negative; and
  whenever cache read plus cache write tokens exceed the input tokens, the input-token
  summand of the cost is exactly 0.
\<close>

theorem calculateCost_nonneg:
  "(0 \<le> or0 (input_tokens u) \<and> 0 \<le> or0 (output_tokens u)
      \<and> 0 \<le> or0 (cache_creation_input_tokens u) \<and> 0 \<le> or0 (cache_read_input_tokens u)
     \<longrightarrow> 0 \<le> calculateCost u modelFamily)
   \<and> (or0 (input_tokens u) < or0 (cache_read_input_tokens u) + or0 (cache_creation_input_tokens u)
     \<longrightarrow> inputCost u (pricingFor modelFamily) = 0)"
proof (intro conjI impI)
  assume a: "0 \<le> or0 (input_tokens u) \<and> 0 \<le> or0 (output_tokens u)
      \<and> 0 \<le> or0 (cache_creation_input_tokens u) \<and> 0 \<le> or0 (cache_read_input_tokens u)"
  have "0 \<le> unroundedCost u (pricingFor modelFamily)"
    using a by (simp add: unroundedCost_def inputCost_def cacheWriteCost_def cacheReadCost_def
        outputCost_def pricingFor_rates)
  then have "0 \<le> Math_round (unroundedCost u (pricingFor modelFamily) * 1000000)"
    by (intro Math_round_nonneg) simp
  then show "0 \<le> calculateCost u modelFamily"
    by (simp add: calculateCost_unrounded)
next
  assume "or0 (input_tokens u) < or0 (cache_read_input_tokens u) + or0 (cache_creation_input_tokens u)"
  then show "inputCost u (pricingFor modelFamily) = 0"
    by (simp add: inputCost_def normalInput_def)
qed

theorem calculateCost_nonneg_witness:
  "0 \<le> calculateCost \<lparr>input_tokens = Some 100, output_tokens = Some 50,
          cache_creation_input_tokens = Some 200, cache_read_input_tokens = Some 300\<rparr> ''claude-opus-4''
   \<and> inputCost \<lparr>input_tokens = Some 100, output_tokens = Some 50,
          cache_creation_input_tokens = Some 200, cache_read_input_tokens = Some 300\<rparr>
         (pricingFor ''claude-opus-4'') = 0"
  using calculateCost_nonneg [of "\<lparr>input_tokens = Some 100, output_tokens = Some 50,
          cache_creation_input_tokens = Some 200, cache_read_input_tokens = Some 300\<rparr>" "''claude-opus-4''"]
  by simp

text \<open>Monotonicity of the rounded cost follows from monotonicity of the sum.\<close>

lemma calculateCost_mono_unrounded:
  assumes "unroundedCost u (pricingFor fam) \<le> unroundedCost u' (pricingFor fam)"
  shows "calculateCost u fam \<le> calculateCost u' fam"
proof -
  have "unroundedCost u (pricingFor fam) * 1000000 \<le> unroundedCost u' (pricingFor fam) * 1000000"
    using assms by simp
  then have "Math_round (unroundedCost u (pricingFor fam) * 1000000)
      \<le> Math_round (unroundedCost u' (pricingFor fam) * 1000000)"
    by (rule Math_round_mono)
  then show ?thesis
    by (simp add: calculateCost_unrounded divide_right_mono)
qed

lemma scaled_mono: "(x::int) \<le> y \<Longrightarrow> 0 \<le> (r::rat) \<Longrightarrow> of_int x * r \<le> of_int y * r"
  by (intro mult_right_mono) simp_all

lemma unroundedCost_mono_input:
  assumes "n \<le> n'"
  shows "unroundedCost (u\<lparr>input_tokens := Some n\<rparr>) (pricingFor fam)
       \<le> unroundedCost (u\<lparr>input_tokens := Some n'\<rparr>) (pricingFor fam)"
proof -
  have "max 0 (n - or0 (cache_read_input_tokens u) - or0 (cache_creation_input_tokens u))
      \<le> max 0 (n' - or0 (cache_read_input_tokens u) - or0 (cache_creation_input_tokens u))"
    using assms by simp
  then show ?thesis
    by (simp add: unroundedCost_def inputCost_def cacheWriteCost_def cacheReadCost_def
      outputCost_def normalInput_def scaled_mono pricingFor_rates)
qed

lemma unroundedCost_mono_output:
  assumes "n \<le> n'"
  shows "unroundedCost (u\<lparr>output_tokens := Some n\<rparr>) (pricingFor fam)
       \<le> unroundedCost (u\<lparr>output_tokens := Some n'\<rparr>) (pricingFor fam)"
  using assms
  by (simp add: unroundedCost_def inputCost_def cacheWriteCost_def cacheReadCost_def
      outputCost_def normalInput_def scaled_mono pricingFor_rates)

lemma unroundedCost_mono_cacheRead_clamped:
  assumes "n \<le> n'" and "or0 (input_tokens u) \<le> n + or0 (cache_creation_input_tokens u)"
  shows "unroundedCost (u\<lparr>cache_read_input_tokens := Some n\<rparr>) (pricingFor fam)
       \<le> unroundedCost (u\<lparr>cache_read_input_tokens := Some n'\<rparr>) (pricingFor fam)"
proof -
  have "max 0 (or0 (input_tokens u) - n - or0 (cache_creation_input_tokens u)) = 0"
       "max 0 (or0 (input_tokens u) - n' - or0 (cache_creation_input_tokens u)) = 0"
    using assms by simp_all
  then show ?thesis
    using assms(1)
    by (simp add: unroundedCost_def inputCost_def cacheWriteCost_def cacheReadCost_def
      outputCost_def normalInput_def scaled_mono pricingFor_rates)
qed

lemma unroundedCost_mono_cacheWrite:
  assumes "n \<le> n'"
  shows "unroundedCost (u\<lparr>cache_creation_input_tokens := Some n\<rparr>) (pricingFor fam)
       \<le> unroundedCost (u\<lparr>cache_creation_input_tokens := Some n'\<rparr>) (pricingFor fam)"
proof -
  define a where "a = input_per_m (pricingFor fam)"
  define b where "b = cache_write_per_m (pricingFor fam)"
  define x where "x = or0 (input_tokens u) - or0 (cache_read_input_tokens u)"
  define d where "d = max 0 (x - n) - max 0 (x - n')"
  have ab: "0 \<le> a" "a \<le> b"
    by (simp_all add: a_def b_def pricingFor_rates)
  have d: "0 \<le> d" "d \<le> n' - n"
    using assms by (simp_all add: d_def)
  have "rat_of_int d * a \<le> rat_of_int (n' - n) * a"
    using d ab by (intro mult_right_mono) simp_all
  also have "\<dots> \<le> rat_of_int (n' - n) * b"
    using assms ab by (intro mult_left_mono) simp_all
  finally have "rat_of_int (max 0 (x - n)) * a + rat_of_int n * b
      \<le> rat_of_int (max 0 (x - n')) * a + rat_of_int n' * b"
    unfolding d_def by (simp add: algebra_simps)
  then have "(rat_of_int (max 0 (x - n)) * a + rat_of_int n * b) / 1000000
      \<le> (rat_of_int (max 0 (x - n')) * a + rat_of_int n' * b) / 1000000"
    by (rule divide_right_mono) simp
  then show ?thesis
    by (simp add: unroundedCost_def inputCost_def cacheWriteCost_def cacheReadCost_def
      outputCost_def normalInput_def a_def b_def x_def add_divide_distrib)
qed

text \<open>
  Claim C5 as stated fails for the cache-read field: with 1000 input tokens at
  \<open>claude-sonnet-4\<close> rates, raising the cache-read count from 0 to 100 lowers the cost from
  0.003 to 0.00273, because each cache-read token also leaves the normal input.
\<close>

theorem calculateCost_cacheRead_decreases:
  "(0::int) \<le> 100 \<and>
   \<not> calculateCost \<lparr>input_tokens = Some 1000, output_tokens = Some 0,
          cache_creation_input_tokens = Some 0, cache_read_input_tokens = Some 0\<rparr> ''claude-sonnet-4''
     \<le> calculateCost \<lparr>input_tokens = Some 1000, output_tokens = Some 0,
          cache_creation_input_tokens = Some 0, cache_read_input_tokens = Some 100\<rparr> ''claude-sonnet-4''"
  by (simp add: calculateCost_def pricingFor_def PRICING_def unroundedCost_def inputCost_def cacheWriteCost_def
      cacheReadCost_def outputCost_def normalInput_def Math_round_def Let_def floor_rat_divide_numeral)

text \<open>
  Claim C5, amended. For every usage tuple and family, raising \<open>input_tokens\<close>,
  \<open>output_tokens\<close> or \<open>cache_creation_input_tokens\<close> with the other fields fixed never
  lowers the cost. Raising \<open>cache_read_input_tokens\<close> never lowers it when the normal
  input is already clamped to 0, that is when the input tokens do not exceed the cache
  read plus cache write tokens.
\<close>

theorem calculateCost_monotonic:
  assumes "n \<le> n'"
  shows "calculateCost (u\<lparr>input_tokens := Some n\<rparr>) fam
           \<le> calculateCost (u\<lparr>input_tokens := Some n'\<rparr>) fam
       \<and> calculateCost (u\<lparr>output_tokens := Some n\<rparr>) fam
           \<le> calculateCost (u\<lparr>output_tokens := Some n'\<rparr>) fam
       \<and> calculateCost (u\<lparr>cache_creation_input_tokens := Some n\<rparr>) fam
           \<le> calculateCost (u\<lparr>cache_creation_input_tokens := Some n'\<rparr>) fam
       \<and> (or0 (input_tokens u) \<le> n + or0 (cache_creation_input_tokens u) \<longrightarrow>
            calculateCost (u\<lparr>cache_read_input_tokens := Some n\<rparr>) fam
              \<le> calculateCost (u\<lparr>cache_read_input_tokens := Some n'\<rparr>) fam)"
  using assms
  by (intro conjI impI calculateCost_mono_unrounded unroundedCost_mono_input
      unroundedCost_mono_output unroundedCost_mono_cacheWrite unroundedCost_mono_cacheRead_clamped)

theorem calculateCost_monotonic_witness:
  "(100::int) \<le> 200
   \<and> calculateCost \<lparr>input_tokens = Some 100, output_tokens = Some 7,
          cache_creation_input_tokens = Some 20, cache_read_input_tokens = Some 30\<rparr> ''claude-haiku-4.5''
     \<le> calculateCost \<lparr>input_tokens = Some 200, output_tokens = Some 7,
          cache_creation_input_tokens = Some 20, cache_read_input_tokens = Some 30\<rparr> ''claude-haiku-4.5''
   \<and> calculateCost \<lparr>input_tokens = Some 50, output_tokens = Some 7,
          cache_creation_input_tokens = Some 20, cache_read_input_tokens = Some 100\<rparr> ''claude-haiku-4.5''
     \<le> calculateCost \<lparr>input_tokens = Some 50, output_tokens = Some 7,
          cache_creation_input_tokens = Some 20, cache_read_input_tokens = Some 200\<rparr> ''claude-haiku-4.5''"
  using calculateCost_monotonic [of 100 200 "\<lparr>input_tokens = Some 50, output_tokens = Some 7,
          cache_creation_input_tokens = Some 20, cache_read_input_tokens = Some 30\<rparr>" "''claude-haiku-4.5''"]
  by simp

subsection \<open>Model family resolver\<close>

lemma getModelFamily_sublist:
  "getModelFamily m =
     (if sublist ''opus-4-6'' m then ''claude-opus-4.6''
      else if sublist ''opus'' m then ''claude-opus-4''
      else if sublist ''haiku'' m then ''claude-haiku-4.5''
      else if sublist ''sonnet'' m then ''claude-sonnet-4''
      else ''default'')"
  by (simp add: getModelFamily_def str_includes_sublist)

lemma opus46_contains_opus: "sublist ''opus-4-6'' m \<Longrightarrow> sublist ''opus'' m"
proof -
  assume "sublist ''opus-4-6'' m"
  then obtain ps ss where "m = ps @ ''opus-4-6'' @ ss"
    by (auto simp: sublist_def)
  then have "m = ps @ ''opus'' @ (''-4-6'' @ ss)"
    by simp
  then show ?thesis
    unfolding sublist_def by blast
qed

text \<open>
  Claim C6. \<open>getModelFamily\<close> is a total function from strings to the five family keys
  \<open>claude-opus-4.6\<close>, \<open>claude-opus-4\<close>, \<open>claude-haiku-4.5\<close>, \<open>claude-sonnet-4\<close> and
  \<open>default\<close> (the keys of the pricing table). Its value is decided by substring containment,
  the first match winning in the order \<open>opus-4-6\<close>, \<open>opus\<close>, \<open>haiku\<close>, \<open>sonnet\<close>: a
  string that contains \<open>opus-4-6\<close> also contains \<open>opus\<close> and still resolves to
  \<open>claude-opus-4.6\<close>, and a string that contains none of the patterns resolves to
  \<open>default\<close>.
\<close>

theorem getModelFamily_total_priority:
  "getModelFamily m \<in> {''claude-opus-4.6'', ''claude-opus-4'', ''claude-haiku-4.5'',
       ''claude-sonnet-4'', ''default''}
   \<and> set families = {''claude-opus-4.6'', ''claude-opus-4'', ''claude-haiku-4.5'',
       ''claude-sonnet-4'', ''default''}
   \<and> getModelFamily m =
       (if sublist ''opus-4-6'' m then ''claude-opus-4.6''
        else if sublist ''opus'' m then ''claude-opus-4''
        else if sublist ''haiku'' m then ''claude-haiku-4.5''
        else if sublist ''sonnet'' m then ''claude-sonnet-4''
        else ''default'')
   \<and> (sublist ''opus-4-6'' m \<longrightarrow> sublist ''opus'' m \<and> getModelFamily m = ''claude-opus-4.6'')
   \<and> (\<not> sublist ''opus-4-6'' m \<and> \<not> sublist ''opus'' m \<and> \<not> sublist ''haiku'' m
        \<and> \<not> sublist ''sonnet'' m \<longrightarrow> getModelFamily m = ''default'')"
proof (intro conjI impI)
  show "getModelFamily m \<in> {''claude-opus-4.6'', ''claude-opus-4'', ''claude-haiku-4.5'',
       ''claude-sonnet-4'', ''default''}"
    by (simp add: getModelFamily_def)
  show "set families = {''claude-opus-4.6'', ''claude-opus-4'', ''claude-haiku-4.5'',
       ''claude-sonnet-4'', ''default''}"
    by (auto simp: families_def PRICING_def)
  show "getModelFamily m =
       (if sublist ''opus-4-6'' m then ''claude-opus-4.6''
        else if sublist ''opus'' m then ''claude-opus-4''
        else if sublist ''haiku'' m then ''claude-haiku-4.5''
        else if sublist ''sonnet'' m then ''claude-sonnet-4''
        else ''default'')"
    by (rule getModelFamily_sublist)
  show "sublist ''opus'' m" if "sublist ''opus-4-6'' m"
    using that by (rule opus46_contains_opus)
  show "getModelFamily m = ''claude-opus-4.6''" if "sublist ''opus-4-6'' m"
    using that by (simp add: getModelFamily_sublist)
  show "getModelFamily m = ''default''"
    if "\<not> sublist ''opus-4-6'' m \<and> \<not> sublist ''opus'' m \<and> \<not> sublist ''haiku'' m
        \<and> \<not> sublist ''sonnet'' m"
    using that by (simp add: getModelFamily_sublist)
qed

theorem getModelFamily_total_priority_witness:
  "sublist ''opus-4-6'' ''claude-opus-4-6-20260101''
   \<and> sublist ''opus'' ''claude-opus-4-6-20260101''
   \<and> getModelFamily ''claude-opus-4-6-20260101'' = ''claude-opus-4.6''
   \<and> \<not> sublist ''opus-4-6'' ''gpt-4o'' \<and> \<not> sublist ''opus'' ''gpt-4o''
   \<and> \<not> sublist ''haiku'' ''gpt-4o'' \<and> \<not> sublist ''sonnet'' ''gpt-4o''
   \<and> getModelFamily ''gpt-4o'' = ''default''"
proof -
  have a: "sublist ''opus-4-6'' ''claude-opus-4-6-20260101''"
    by (simp add: str_includes_sublist [symmetric])
  have b: "\<not> sublist ''opus-4-6'' ''gpt-4o'' \<and> \<not> sublist ''opus'' ''gpt-4o''
        \<and> \<not> sublist ''haiku'' ''gpt-4o'' \<and> \<not> sublist ''sonnet'' ''gpt-4o''"
    by (simp add: str_includes_sublist [symmetric])
  show ?thesis
    using a b getModelFamily_total_priority [of "''claude-opus-4-6-20260101''"]
      getModelFamily_total_priority [of "''gpt-4o''"]
    by blast
qed

subsection \<open>Session parser: keep-last-write per request identifier\<close>

lemma setRequest_carried: "setRequest e m = fold (\<lambda>kv. AList.update (fst kv) (snd kv)) (carried e) m"
  by (simp add: setRequest_def carried_def split: option.splits)

lemma requestMap_parseLine:
  "requestMap (parseLine line st) = fold (\<lambda>kv. AList.update (fst kv) (snd kv)) (lineRecords line) (requestMap st)"
  by (simp add: parseLine_def lineRecords_def setRequest_carried Let_def split: option.splits)

lemma requestMap_fold_parseLine:
  "requestMap (fold parseLine lines st) =
     fold (\<lambda>kv. AList.update (fst kv) (snd kv)) (concat (map lineRecords lines)) (requestMap st)"
  by (induction lines arbitrary: st) (simp_all add: requestMap_parseLine)

lemma requestMap_parseLines:
  "requestMap (parseLines lines) = fold (\<lambda>kv. AList.update (fst kv) (snd kv)) (usageRecords lines) []"
  by (simp add: parseLines_def usageRecords_def requestMap_fold_parseLine)

lemma distinct_fold_update:
  "distinct (map fst m) \<Longrightarrow> distinct (map fst (fold (\<lambda>kv. AList.update (fst kv) (snd kv)) recs m))"
  by (induction recs arbitrary: m) (simp_all add: AList.distinct_update)

lemma map_of_fold_update:
  "map_of (fold (\<lambda>kv. AList.update (fst kv) (snd kv)) recs m) = map_of m ++ map_of (rev recs)"
proof (induction recs arbitrary: m)
  case Nil
  then show ?case by simp
next
  case (Cons x xs)
  have "map_of (fold (\<lambda>kv. AList.update (fst kv) (snd kv)) (x # xs) m)
      = map_of (AList.update (fst x) (snd x) m) ++ map_of (rev xs)"
    using Cons.IH by simp
  also have "\<dots> = (map_of m)(fst x \<mapsto> snd x) ++ map_of (rev xs)"
    by (simp add: AList.update_conv')
  also have "\<dots> = map_of m ++ map_of (rev (x # xs))"
    by (cases x) (simp add: map_add_upd_left fun_eq_iff map_add_def split: option.splits)
  finally show ?case .
qed

lemma keys_lastRecords: "set (map fst (lastRecords recs)) = set (map fst recs)"
  by (induction recs) auto

lemma distinct_lastRecords: "distinct (map fst (lastRecords recs))"
proof (induction recs)
  case Nil
  then show ?case by simp
next
  case (Cons x xs)
  then show ?case
    using keys_lastRecords [of xs] by auto
qed

lemma map_of_lastRecords: "map_of (lastRecords recs) = map_of (rev recs)"
proof (induction recs)
  case Nil
  then show ?case by simp
next
  case (Cons x xs)
  show ?case
  proof (cases "fst x \<in> set (map fst xs)")
    case True
    then have "fst x \<in> dom (map_of (rev xs))"
      by (simp add: dom_map_of_conv_image_fst)
    then have "map_of (rev xs @ [x]) = map_of (rev xs)"
      by (cases x) (auto simp: fun_eq_iff map_add_def split: option.splits)
    with True Cons.IH show ?thesis by simp
  next
    case False
    then have "fst x \<notin> dom (map_of (rev xs))"
      by (simp add: dom_map_of_conv_image_fst)
    then have "map_of (rev xs @ [x]) = (map_of (rev xs))(fst x \<mapsto> snd x)"
      by (cases x) (auto simp: fun_eq_iff map_add_def split: option.splits)
    with False Cons.IH show ?thesis by (cases x) simp
  qed
qed

lemma mset_requestMap:
  "mset (requestMap (parseLines lines)) = mset (lastRecords (usageRecords lines))"
proof -
  let ?m = "requestMap (parseLines lines)" and ?l = "lastRecords (usageRecords lines)"
  have d1: "distinct (map fst ?m)"
    by (simp add: requestMap_parseLines distinct_fold_update)
  have d2: "distinct (map fst ?l)"
    by (rule distinct_lastRecords)
  have "map_of ?m = map_of ?l"
    by (simp add: requestMap_parseLines map_of_fold_update map_of_lastRecords)
  with d1 d2 have "set ?m = set ?l"
    by (simp add: map_of_inject_set)
  moreover have "distinct ?m" "distinct ?l"
    using d1 d2 by (auto simp: distinct_map)
  ultimately show ?thesis
    by (simp add: set_eq_iff_mset_eq_distinct)
qed

lemma totalUsage_addRequest:
  "totalUsage (addRequest r a) =
     \<lparr>input_tokens = input_tokens (totalUsage a) + or0 (input_tokens (fst r)),
      output_tokens = output_tokens (totalUsage a) + or0 (output_tokens (fst r)),
      cache_creation_input_tokens =
        cache_creation_input_tokens (totalUsage a) + or0 (cache_creation_input_tokens (fst r)),
      cache_read_input_tokens =
        cache_read_input_tokens (totalUsage a) + or0 (cache_read_input_tokens (fst r))\<rparr>"
  by (simp add: addRequest_def Let_def)

lemma totalCost_addRequest: "totalCost (addRequest r a) = totalCost a + requestCost r"
  by (simp add: addRequest_def requestCost_def Let_def)

lemma times_addRequest:
  "sessionStart (addRequest r a) = sessionStart a" "sessionEnd (addRequest r a) = sessionEnd a"
  by (simp_all add: addRequest_def Let_def)

lemma totalUsage_fold_addRequest:
  "totalUsage (fold addRequest rs a) =
     \<lparr>input_tokens = input_tokens (totalUsage a) + input_tokens (sumUsage rs),
      output_tokens = output_tokens (totalUsage a) + output_tokens (sumUsage rs),
      cache_creation_input_tokens =
        cache_creation_input_tokens (totalUsage a) + cache_creation_input_tokens (sumUsage rs),
      cache_read_input_tokens =
        cache_read_input_tokens (totalUsage a) + cache_read_input_tokens (sumUsage rs)\<rparr>"
proof (induction rs arbitrary: a)
  case Nil
  then show ?case by (simp add: sumUsage_def)
next
  case (Cons r rs)
  show ?case
    by (simp add: Cons.IH totalUsage_addRequest sumUsage_def)
qed

lemma totalCost_fold_addRequest:
  "totalCost (fold addRequest rs a) = totalCost a + (\<Sum>r\<leftarrow>rs. requestCost r)"
  by (induction rs arbitrary: a) (simp_all add: totalCost_addRequest)

lemma totalUsage_parseSessionFile:
  "totalUsage (parseSessionFile lines) = sumUsage (map snd (requestMap (parseLines lines)))"
  by (simp add: parseSessionFile_def Let_def totalUsage_fold_addRequest sumUsage_def)

lemma totalCost_parseSessionFile:
  "totalCost (parseSessionFile lines) = (\<Sum>r\<leftarrow>map snd (requestMap (parseLines lines)). requestCost r)"
  by (simp add: parseSessionFile_def Let_def totalCost_fold_addRequest)

lemma sum_list_mset_cong:
  fixes f :: "'a \<Rightarrow> 'b::comm_monoid_add"
  assumes "mset xs = mset ys"
  shows "(\<Sum>x\<leftarrow>xs. f x) = (\<Sum>x\<leftarrow>ys. f x)"
proof -
  have "sum_mset (image_mset f (mset xs)) = sum_mset (image_mset f (mset ys))"
    using assms by simp
  then show ?thesis
    by (simp add: sum_mset_sum_list flip: mset_map)
qed

lemma sumUsage_mset_cong: "mset rs = mset rs' \<Longrightarrow> sumUsage rs = sumUsage rs'"
  unfolding sumUsage_def
  by (simp add: sum_list_mset_cong [of rs rs'])

lemma mset_requestMap_values:
  "mset (map snd (requestMap (parseLines lines))) = mset (map snd (lastRecords (usageRecords lines)))"
  using mset_requestMap [of lines] by (metis mset_map)

lemma usageRecords_two_direct:
  assumes "r \<noteq> []"
  shows "lastRecords (usageRecords
      [Some \<lparr>requestId = Some r, message = Some \<lparr>usage = Some u1, model = m1\<rparr>,
             timestamp = t1, data_message = None\<rparr>,
       Some \<lparr>requestId = Some r, message = Some \<lparr>usage = Some u2, model = m2\<rparr>,
             timestamp = t2, data_message = None\<rparr>])
     = [(r, (u2, str_or m2 ''unknown''))]"
  using assms by (simp add: usageRecords_def lineRecords_def carried_def)

text \<open>
  Claim C2. The session parser keeps the last write per request identifier: for every
  file, the total usage and the total cost of the aggregate are those of the records
  that remain when, for every request identifier, only the last record carrying it is
  kept (one record per identifier, the one a lookup from the end of the file finds). In
  particular, for two direct-shape entries with the same truthy request identifier, the
  total usage is the usage of the second entry alone, not the sum of both.
\<close>

theorem parseSessionFile_keeps_last_write:
  "totalUsage (parseSessionFile lines) = sumUsage (map snd (lastRecords (usageRecords lines)))
   \<and> totalCost (parseSessionFile lines)
       = (\<Sum>r\<leftarrow>map snd (lastRecords (usageRecords lines)). requestCost r)
   \<and> distinct (map fst (lastRecords (usageRecords lines)))
   \<and> (\<forall>k r. (k, r) \<in> set (lastRecords (usageRecords lines))
        \<longleftrightarrow> map_of (rev (usageRecords lines)) k = Some r)
   \<and> (rid \<noteq> [] \<longrightarrow>
        totalUsage (parseSessionFile
          [Some \<lparr>requestId = Some rid, message = Some \<lparr>usage = Some u1, model = m1\<rparr>,
                 timestamp = t1, data_message = None\<rparr>,
           Some \<lparr>requestId = Some rid, message = Some \<lparr>usage = Some u2, model = m2\<rparr>,
                 timestamp = t2, data_message = None\<rparr>])
        = \<lparr>input_tokens = or0 (input_tokens u2), output_tokens = or0 (output_tokens u2),
           cache_creation_input_tokens = or0 (cache_creation_input_tokens u2),
           cache_read_input_tokens = or0 (cache_read_input_tokens u2)\<rparr>)"
proof -
  have usage: "totalUsage (parseSessionFile ls) = sumUsage (map snd (lastRecords (usageRecords ls)))"
    for ls
    unfolding totalUsage_parseSessionFile
    by (rule sumUsage_mset_cong [OF mset_requestMap_values])
  have cost: "totalCost (parseSessionFile lines)
       = (\<Sum>r\<leftarrow>map snd (lastRecords (usageRecords lines)). requestCost r)"
    unfolding totalCost_parseSessionFile
    by (rule sum_list_mset_cong [OF mset_requestMap_values])
  have dist: "distinct (map fst (lastRecords (usageRecords lines)))"
    by (rule distinct_lastRecords)
  have last: "(k, r) \<in> set (lastRecords (usageRecords lines))
        \<longleftrightarrow> map_of (rev (usageRecords lines)) k = Some r" for k r
    using map_of_eq_Some_iff [OF distinct_lastRecords, of "usageRecords lines" k r]
    by (simp add: map_of_lastRecords)
  have two: "totalUsage (parseSessionFile
          [Some \<lparr>requestId = Some rid, message = Some \<lparr>usage = Some u1, model = m1\<rparr>,
                 timestamp = t1, data_message = None\<rparr>,
           Some \<lparr>requestId = Some rid, message = Some \<lparr>usage = Some u2, model = m2\<rparr>,
                 timestamp = t2, data_message = None\<rparr>])
        = \<lparr>input_tokens = or0 (input_tokens u2), output_tokens = or0 (output_tokens u2),
           cache_creation_input_tokens = or0 (cache_creation_input_tokens u2),
           cache_read_input_tokens = or0 (cache_read_input_tokens u2)\<rparr>" if "rid \<noteq> []"
    unfolding usage usageRecords_two_direct [OF that] by (simp add: sumUsage_def)
  show ?thesis
    using usage [of lines] cost dist last two by blast
qed

theorem parseSessionFile_keeps_last_write_witness:
  "''req_1'' \<noteq> []
   \<and> totalUsage (parseSessionFile
          [Some \<lparr>requestId = Some ''req_1'',
                 message = Some \<lparr>usage = Some \<lparr>input_tokens = Some 10, output_tokens = Some 5,
                     cache_creation_input_tokens = None, cache_read_input_tokens = None\<rparr>,
                   model = Some ''claude-sonnet-4''\<rparr>,
                 timestamp = Some ''2026-01-01T00:00:00Z'', data_message = None\<rparr>,
           Some \<lparr>requestId = Some ''req_1'',
                 message = Some \<lparr>usage = Some \<lparr>input_tokens = Some 100, output_tokens = Some 50,
                     cache_creation_input_tokens = None, cache_read_input_tokens = Some 7\<rparr>,
                   model = Some ''claude-sonnet-4''\<rparr>,
                 timestamp = Some ''2026-01-01T00:00:05Z'', data_message = None\<rparr>])
       = \<lparr>input_tokens = 100, output_tokens = 50, cache_creation_input_tokens = 0,
          cache_read_input_tokens = 7\<rparr>"
  using parseSessionFile_keeps_last_write [of "[]" "''req_1''"
      "\<lparr>input_tokens = Some 10, output_tokens = Some 5,
        cache_creation_input_tokens = None, cache_read_input_tokens = None\<rparr>"
      "Some ''claude-sonnet-4''" "Some ''2026-01-01T00:00:00Z''"
      "\<lparr>input_tokens = Some 100, output_tokens = Some 50,
        cache_creation_input_tokens = None, cache_read_input_tokens = Some 7\<rparr>"
      "Some ''claude-sonnet-4''" "Some ''2026-01-01T00:00:05Z''"]
  by simp

subsection \<open>Ingestion driver: the steps\<close>

lemma markSynced_fields:
  "posts (markSynced e sid w) = posts w"
  "ledgerFile (markSynced e sid w) =
     Some (if sid = ''__proto__'' \<and> map_of (readLedger (ledgerFile w)) sid = None
           then readLedger (ledgerFile w)
           else AList.update sid (Date_now e (clock w)) (readLedger (ledgerFile w)))"
  "clock (markSynced e sid w) = Suc (clock w)"
  by (simp_all add: markSynced_def Let_def)


lemma markSynced_run_fields:
  "uploaded (markSynced e sid st) = uploaded st"
  "skipped (markSynced e sid st) = skipped st"
  "grandTotal (markSynced e sid st) = grandTotal st"
  by (simp_all add: markSynced_def Let_def)

lemma uploadRecord_accepted:
  "accepted e (length (posts w)) r \<Longrightarrow> uploadRecord e r w = (w\<lparr>posts := posts w @ [r]\<rparr>, Inr ())"
  by (auto simp: uploadRecord_def accepted_def Let_def split: response.splits)

lemma uploadRecord_failed:
  "\<not> accepted e (length (posts w)) r \<Longrightarrow>
     \<exists>err. uploadRecord e r w = (w\<lparr>posts := posts w @ [r]\<rparr>, Inl err)"
  by (auto simp: uploadRecord_def accepted_def Let_def split: response.splits)

lemma processFile_skip:
  assumes "isSynced synced (basename_jsonl (fname f))"
  shows "processFile e synced dir f st = st\<lparr>skipped := skipped st + 1\<rparr>"
  using assms by (simp add: processFile_def)

lemma processFile_empty:
  assumes "\<not> isSynced synced (basename_jsonl (fname f))"
    and "input_tokens (totalUsage (parseSessionFile (content f))) = 0"
    and "output_tokens (totalUsage (parseSessionFile (content f))) = 0"
  shows "processFile e synced dir f st =
     (if DRY_RUN e then st\<lparr>skipped := skipped st + 1\<rparr>
      else (markSynced e (basename_jsonl (fname f)) st)
             \<lparr>skipped := skipped st + 1\<rparr>)"
  using assms by (simp add: processFile_def Let_def markSynced_run_fields)

lemma processFile_dry:
  assumes "\<not> isSynced synced (basename_jsonl (fname f))"
    and "\<not> (input_tokens (totalUsage (parseSessionFile (content f))) = 0
          \<and> output_tokens (totalUsage (parseSessionFile (content f))) = 0)"
    and "DRY_RUN e"
  shows "processFile e synced dir f st =
     st\<lparr>grandTotal := grandTotal st + totalCost (parseSessionFile (content f)),
        uploaded := uploaded st + 1\<rparr>"
  using assms by (auto simp add: processFile_def Let_def)

lemma processFile_upload_failed:
  assumes "\<not> isSynced synced (basename_jsonl (fname f))"
    and "\<not> (input_tokens (totalUsage (parseSessionFile (content f))) = 0
          \<and> output_tokens (totalUsage (parseSessionFile (content f))) = 0)"
    and "\<not> DRY_RUN e"
    and "\<not> accepted e (length (posts st))
           (buildRecord e (basename_jsonl (fname f)) (extractProjectName dir) f
              (parseSessionFile (content f)))"
  shows "processFile e synced dir f st =
     st\<lparr>grandTotal := grandTotal st + totalCost (parseSessionFile (content f)),
        posts := posts st @ [buildRecord e (basename_jsonl (fname f)) (extractProjectName dir) f
              (parseSessionFile (content f))]\<rparr>"
proof -
  let ?r = "buildRecord e (basename_jsonl (fname f)) (extractProjectName dir) f
              (parseSessionFile (content f))"
  let ?st1 = "st\<lparr>grandTotal := grandTotal st + totalCost (parseSessionFile (content f))\<rparr>"
  from assms(4) have "\<not> accepted e (length (posts ?st1)) ?r" by simp
  from uploadRecord_failed [OF this] obtain err
    where "uploadRecord e ?r ?st1 = (?st1\<lparr>posts := posts ?st1 @ [?r]\<rparr>, Inl err)" by blast
  with assms(1-3) show ?thesis
    by (auto simp add: processFile_def Let_def)
qed

lemma processFile_upload_ok:
  assumes "\<not> isSynced synced (basename_jsonl (fname f))"
    and "\<not> (input_tokens (totalUsage (parseSessionFile (content f))) = 0
          \<and> output_tokens (totalUsage (parseSessionFile (content f))) = 0)"
    and "\<not> DRY_RUN e"
    and "accepted e (length (posts st))
           (buildRecord e (basename_jsonl (fname f)) (extractProjectName dir) f
              (parseSessionFile (content f)))"
  shows "processFile e synced dir f st =
     (markSynced e (basename_jsonl (fname f))
       (st\<lparr>grandTotal := grandTotal st + totalCost (parseSessionFile (content f)),
          posts := posts st @ [buildRecord e (basename_jsonl (fname f)) (extractProjectName dir) f
              (parseSessionFile (content f))]\<rparr>))
      \<lparr>uploaded := uploaded st + 1\<rparr>"
proof -
  let ?r = "buildRecord e (basename_jsonl (fname f)) (extractProjectName dir) f
              (parseSessionFile (content f))"
  let ?st1 = "st\<lparr>grandTotal := grandTotal st + totalCost (parseSessionFile (content f))\<rparr>"
  from assms(4) have "accepted e (length (posts ?st1)) ?r" by simp
  from uploadRecord_accepted [OF this]
  have "uploadRecord e ?r ?st1 = (?st1\<lparr>posts := posts ?st1 @ [?r]\<rparr>, Inr ())" .
  with assms(1-3) show ?thesis
    by (auto simp add: processFile_def Let_def markSynced_run_fields)
qed

lemma syncAll_visited:
  "fold (processProjectDir e synced) projectDirs st =
     fold (\<lambda>p. processFile e synced (fst p) (snd p)) (visited e projectDirs) st"
proof (induction projectDirs arbitrary: st)
  case Nil
  then show ?case by (simp add: visited_def)
next
  case (Cons d ds)
  have "visited e (d # ds) =
      (if isDirectory d
       then map (\<lambda>f. (getProjectsDir e @ [dname d], f))
              (filter (\<lambda>f. endsWith (fname f) ''.jsonl'') (dfiles d))
       else []) @ visited e ds"
    by (simp add: visited_def)
  then show ?case
    using Cons.IH by (simp add: processProjectDir_def Let_def fold_map comp_def)
qed

lemma isSynced_update:
  "isSynced (AList.update k t l) x = (if x = k then t \<noteq> 0 else isSynced l x)"
  by (simp add: isSynced_def AList.update_conv')

lemma proto_inherited: "''__proto__'' \<in> set objectPrototypeNames"
  by (simp add: objectPrototypeNames_def)

lemma isSynced_markSynced_self:
  "Date_now e (clock w) \<noteq> 0 \<Longrightarrow> isSynced (readLedger (ledgerFile (markSynced e sid w))) sid"
  using proto_inherited by (auto simp: markSynced_fields isSynced_update) (simp add: isSynced_def)

lemma isSynced_markSynced_mono:
  "Date_now e (clock w) \<noteq> 0 \<Longrightarrow> isSynced (readLedger (ledgerFile w)) x
     \<Longrightarrow> isSynced (readLedger (ledgerFile (markSynced e sid w))) x"
  by (simp add: markSynced_fields isSynced_update)

text \<open>The six outcomes of the loop body.\<close>

lemma processFile_cases:
  fixes e synced dir f st
  defines "sid \<equiv> basename_jsonl (fname f)"
  defines "a \<equiv> parseSessionFile (content f)"
  defines "r \<equiv> buildRecord e (basename_jsonl (fname f)) (extractProjectName dir) f
              (parseSessionFile (content f))"
  obtains
    (skip) "isSynced synced sid" "processFile e synced dir f st = st\<lparr>skipped := skipped st + 1\<rparr>"
  | (empty_dry) "\<not> isSynced synced sid" "DRY_RUN e"
      "input_tokens (totalUsage a) = 0 \<and> output_tokens (totalUsage a) = 0"
      "processFile e synced dir f st = st\<lparr>skipped := skipped st + 1\<rparr>"
  | (empty_marked) "\<not> isSynced synced sid" "\<not> DRY_RUN e"
      "input_tokens (totalUsage a) = 0 \<and> output_tokens (totalUsage a) = 0"
      "processFile e synced dir f st = (markSynced e sid st)\<lparr>skipped := skipped st + 1\<rparr>"
  | (dry) "\<not> isSynced synced sid" "DRY_RUN e"
      "\<not> (input_tokens (totalUsage a) = 0 \<and> output_tokens (totalUsage a) = 0)"
      "processFile e synced dir f st =
         st\<lparr>grandTotal := grandTotal st + totalCost a, uploaded := uploaded st + 1\<rparr>"
  | (failed) "\<not> isSynced synced sid" "\<not> DRY_RUN e" "\<not> accepted e (length (posts st)) r"
      "\<not> (input_tokens (totalUsage a) = 0 \<and> output_tokens (totalUsage a) = 0)"
      "processFile e synced dir f st =
         st\<lparr>grandTotal := grandTotal st + totalCost a, posts := posts st @ [r]\<rparr>"
  | (ok) "\<not> isSynced synced sid" "\<not> DRY_RUN e" "accepted e (length (posts st)) r"
      "\<not> (input_tokens (totalUsage a) = 0 \<and> output_tokens (totalUsage a) = 0)"
      "processFile e synced dir f st =
         (markSynced e sid (st\<lparr>grandTotal := grandTotal st + totalCost a, posts := posts st @ [r]\<rparr>))
           \<lparr>uploaded := uploaded st + 1\<rparr>"
proof (cases "isSynced synced sid")
  case True
  then show ?thesis
    using skip processFile_skip [of synced f e dir st] by (simp add: sid_def)
next
  case ns: False
  show ?thesis
  proof (cases "input_tokens (totalUsage a) = 0 \<and> output_tokens (totalUsage a) = 0")
    case True
    then show ?thesis
      using ns empty_dry empty_marked processFile_empty [of synced f e dir st]
      by (cases "DRY_RUN e") (simp_all add: sid_def a_def)
  next
    case ne: False
    show ?thesis
    proof (cases "DRY_RUN e")
      case True
      then show ?thesis
        using ns ne dry processFile_dry [of synced f e dir st] by (simp add: sid_def a_def)
    next
      case nd: False
      show ?thesis
      proof (cases "accepted e (length (posts st)) r")
        case True
        then show ?thesis
          using ns ne nd ok processFile_upload_ok [of synced f e st dir]
          by (simp add: sid_def a_def r_def)
      next
        case False
        then show ?thesis
          using ns ne nd failed processFile_upload_failed [of synced f e st dir]
          by (simp add: sid_def a_def r_def)
      qed
    qed
  qed
qed

lemma session_id_buildRecord: "session_id (buildRecord e sid project f a) = sid"
  by (simp add: buildRecord_def)

subsection \<open>One step: what it may post and write\<close>

lemma posts_processFile:
  "posts (processFile e synced dir f st) = posts st
   \<or> (\<not> DRY_RUN e \<and> \<not> isSynced synced (basename_jsonl (fname f))
       \<and> \<not> (input_tokens (totalUsage (parseSessionFile (content f))) = 0
              \<and> output_tokens (totalUsage (parseSessionFile (content f))) = 0)
       \<and> posts (processFile e synced dir f st) =
            posts st @ [buildRecord e (basename_jsonl (fname f)) (extractProjectName dir) f
              (parseSessionFile (content f))])"
  by (cases rule: processFile_cases [where e = e and synced = synced and dir = dir and f = f and st = st])
    (simp_all add: markSynced_fields)

lemma ledger_processFile_dry:
  assumes "DRY_RUN e"
  shows "ledgerFile (processFile e synced dir f st) = ledgerFile st"
    and "posts (processFile e synced dir f st) = posts st"
    and "clock (processFile e synced dir f st) = clock st"
  using assms
  by (cases rule: processFile_cases [where e = e and synced = synced and dir = dir and f = f and st = st];
      simp)+

lemma isSynced_processFile_mono:
  assumes "\<forall>k. Date_now e k \<noteq> 0" and "isSynced (readLedger (ledgerFile st)) x"
  shows "isSynced (readLedger (ledgerFile (processFile e synced dir f st))) x"
  using assms
  by (cases rule: processFile_cases [where e = e and synced = synced and dir = dir and f = f and st = st])
    (simp_all add: isSynced_markSynced_mono)



subsection \<open>The two loops as one fold over the visited files\<close>

lemma fold_dry:
  assumes "DRY_RUN e"
  shows "ledgerFile (fold (\<lambda>p. processFile e synced (fst p) (snd p)) ps st) = ledgerFile st
    \<and> posts (fold (\<lambda>p. processFile e synced (fst p) (snd p)) ps st) = posts st
    \<and> clock (fold (\<lambda>p. processFile e synced (fst p) (snd p)) ps st) = clock st"
  by (induction ps arbitrary: st) (simp_all add: ledger_processFile_dry [OF assms])

lemma fold_posts:
  "\<exists>new. posts (fold (\<lambda>p. processFile e synced (fst p) (snd p)) ps st) = posts st @ new
     \<and> (\<forall>r\<in>set new. \<not> isSynced synced (session_id r))
     \<and> subseq (map session_id new) (map (\<lambda>p. basename_jsonl (fname (snd p))) ps)"
proof (induction ps arbitrary: st)
  case Nil
  then show ?case by simp
next
  case (Cons p ps)
  let ?st' = "processFile e synced (fst p) (snd p) st"
  from Cons.IH [of ?st'] obtain new where new:
    "posts (fold (\<lambda>p. processFile e synced (fst p) (snd p)) ps ?st') = posts ?st' @ new"
    "\<forall>r\<in>set new. \<not> isSynced synced (session_id r)"
    "subseq (map session_id new) (map (\<lambda>p. basename_jsonl (fname (snd p))) ps)"
    by blast
  from posts_processFile [of e synced "fst p" "snd p" st]
  show ?case
  proof
    assume "posts ?st' = posts st"
    then have "posts (fold (\<lambda>p. processFile e synced (fst p) (snd p)) (p # ps) st) = posts st @ new"
      using new(1) by simp
    moreover have "subseq (map session_id new) (map (\<lambda>p. basename_jsonl (fname (snd p))) (p # ps))"
      using new(3) by (simp add: list_emb_Cons)
    ultimately show ?thesis
      using new(2) by blast
  next
    let ?r = "buildRecord e (basename_jsonl (fname (snd p))) (extractProjectName (fst p)) (snd p)
              (parseSessionFile (content (snd p)))"
    assume a: "\<not> DRY_RUN e \<and> \<not> isSynced synced (basename_jsonl (fname (snd p)))
       \<and> \<not> (input_tokens (totalUsage (parseSessionFile (content (snd p)))) = 0
              \<and> output_tokens (totalUsage (parseSessionFile (content (snd p)))) = 0)
       \<and> posts ?st' = posts st @ [?r]"
    then have "posts (fold (\<lambda>p. processFile e synced (fst p) (snd p)) (p # ps) st)
        = posts st @ (?r # new)"
      using new(1) by simp
    moreover have "subseq (map session_id (?r # new))
        (map (\<lambda>p. basename_jsonl (fname (snd p))) (p # ps))"
      using new(3) by (simp add: session_id_buildRecord)
    moreover have "\<forall>r\<in>set (?r # new). \<not> isSynced synced (session_id r)"
      using new(2) a by (simp add: session_id_buildRecord)
    ultimately show ?thesis
      by blast
  qed
qed

lemma fold_isSynced_mono:
  assumes "\<forall>k. Date_now e k \<noteq> 0" and "isSynced (readLedger (ledgerFile st)) x"
  shows "isSynced (readLedger (ledgerFile (fold (\<lambda>p. processFile e synced (fst p) (snd p)) ps st))) x"
  using assms(2)
  by (induction ps arbitrary: st) (simp_all add: isSynced_processFile_mono [OF assms(1)])


lemma fold_all_skipped:
  assumes "\<forall>p\<in>set ps. isSynced synced (basename_jsonl (fname (snd p)))"
  shows "fold (\<lambda>p. processFile e synced (fst p) (snd p)) ps st = st\<lparr>skipped := skipped st + length ps\<rparr>"
  using assms
  by (induction ps arbitrary: st) (simp_all add: processFile_skip)

lemma fold_marks_all:
  assumes nd: "\<not> DRY_RUN e" and clk: "\<forall>k. Date_now e k \<noteq> 0"
    and snap: "\<forall>x. isSynced synced x \<longrightarrow> isSynced (readLedger (ledgerFile st)) x"
    and acc: "\<forall>i. length (posts st) \<le> i
          \<and> i < length (posts (fold (\<lambda>p. processFile e synced (fst p) (snd p)) ps st))
        \<longrightarrow> accepted e i (posts (fold (\<lambda>p. processFile e synced (fst p) (snd p)) ps st) ! i)"
  shows "\<forall>p\<in>set ps. isSynced
      (readLedger (ledgerFile (fold (\<lambda>p. processFile e synced (fst p) (snd p)) ps st)))
      (basename_jsonl (fname (snd p)))"
  using snap acc
proof (induction ps arbitrary: st)
  case Nil
  then show ?case by simp
next
  case (Cons p ps)
  let ?step = "\<lambda>p. processFile e synced (fst p) (snd p)"
  let ?st' = "processFile e synced (fst p) (snd p) st"
  let ?final = "fold ?step ps ?st'"
  let ?sid = "basename_jsonl (fname (snd p))"
  let ?r = "buildRecord e (basename_jsonl (fname (snd p))) (extractProjectName (fst p)) (snd p)
              (parseSessionFile (content (snd p)))"
  have final: "fold ?step (p # ps) st = ?final" by simp
  from fold_posts [of e synced ps ?st'] obtain new where new: "posts ?final = posts ?st' @ new"
    by blast
  have len: "length (posts st) \<le> length (posts ?st')"
    using posts_processFile [of e synced "fst p" "snd p" st] by auto
  have snap': "\<forall>x. isSynced synced x \<longrightarrow> isSynced (readLedger (ledgerFile ?st')) x"
    using Cons.prems(1) isSynced_processFile_mono [OF clk] by blast
  have acc': "\<forall>i. length (posts ?st') \<le> i \<and> i < length (posts ?final)
        \<longrightarrow> accepted e i (posts ?final ! i)"
  proof (intro allI impI)
    fix i
    assume i: "length (posts ?st') \<le> i \<and> i < length (posts ?final)"
    have "length (posts st) \<le> i \<and> i < length (posts ?final)
        \<longrightarrow> accepted e i (posts ?final ! i)"
      using Cons.prems(2) [THEN spec, of i] by simp
    with i len show "accepted e i (posts ?final ! i)" by simp
  qed
  have rest: "\<forall>q\<in>set ps. isSynced (readLedger (ledgerFile ?final)) (basename_jsonl (fname (snd q)))"
    using Cons.IH [OF snap' acc'] .
  have here: "isSynced (readLedger (ledgerFile ?st')) ?sid"
  proof (cases rule: processFile_cases [where e = e and synced = synced and dir = "fst p"
        and f = "snd p" and st = st])
    case skip
    then show ?thesis using Cons.prems(1) by simp
  next
    case empty_dry
    then show ?thesis using nd by simp
  next
    case empty_marked
    then show ?thesis using clk by (simp add: isSynced_markSynced_self)
  next
    case dry
    then show ?thesis using nd by simp
  next
    case failed
    then have "posts ?st' = posts st @ [?r]" by simp
    then have "posts ?final = posts st @ ?r # new" using new by simp
    then have idx: "length (posts st) < length (posts ?final)" "posts ?final ! length (posts st) = ?r"
      by simp_all
    have "length (posts st) \<le> length (posts st) \<and> length (posts st) < length (posts ?final)
        \<longrightarrow> accepted e (length (posts st)) (posts ?final ! length (posts st))"
      using Cons.prems(2) [THEN spec, of "length (posts st)"] by simp
    then have "accepted e (length (posts st)) ?r"
      using idx by simp
    with failed(3) show ?thesis by simp
  next
    case ok
    then show ?thesis using clk by (simp add: isSynced_markSynced_self)
  qed
  have "isSynced (readLedger (ledgerFile ?final)) ?sid"
    using fold_isSynced_mono [OF clk here] .
  with rest show ?case by simp
qed

lemma map_snd_visited: "map snd (visited e projectDirs) = map snd (visited e' projectDirs)"
  by (induction projectDirs) (simp_all add: visited_def comp_def)

lemma syncAll_Some:
  "syncAll e (Some projectDirs) w =
     fold (\<lambda>p. processFile e (readLedger (ledgerFile w)) (fst p) (snd p)) (visited e projectDirs) (startRun w)"
  by (simp add: syncAll_def getAlreadySynced_def syncAll_visited)

lemma startRun_fields:
  "ledgerFile (startRun w) = ledgerFile w" "posts (startRun w) = posts w" "clock (startRun w) = clock w"
  "uploaded (startRun w) = 0" "skipped (startRun w) = 0" "grandTotal (startRun w) = 0"
  by (simp_all add: startRun_def world.defs)


subsection \<open>Ingestion driver: the claims\<close>


lemma sample_ids:
  "basename_jsonl (fname sampleFile) = ''s1''"
  "basename_jsonl (fname cacheOnlyFile) = ''s2''"
  by (simp_all add: basename_jsonl_def sampleFile_def cacheOnlyFile_def)

lemma sample_ids_own:
  "''s1'' \<notin> set objectPrototypeNames" "''s2'' \<notin> set objectPrototypeNames"
  by (simp_all add: objectPrototypeNames_def)

lemma sample_not_synced:
  "\<not> isSynced [] (basename_jsonl (fname sampleFile))"
  "\<not> isSynced [] (basename_jsonl (fname cacheOnlyFile))"
  by (simp_all add: isSynced_def sample_ids sample_ids_own)

lemma cacheOnly_totals:
  "totalUsage (parseSessionFile cacheOnlySession) =
     \<lparr>input_tokens = 0, output_tokens = 0, cache_creation_input_tokens = 0,
      cache_read_input_tokens = 1\<rparr>"
  by (simp add: cacheOnlySession_def sampleEntry_def parseSessionFile_def parseLines_def
      parseLine_def setRequest_def addRequest_def Let_def)

lemma sample_totals:
  "totalUsage (parseSessionFile sampleSession) =
     \<lparr>input_tokens = 100, output_tokens = 50, cache_creation_input_tokens = 0,
      cache_read_input_tokens = 7\<rparr>"
  by (simp add: sampleSession_def sampleEntry_def parseSessionFile_def parseLines_def
      parseLine_def setRequest_def addRequest_def Let_def)

lemma sample_visited:
  "visited e sampleProjects =
     [(getProjectsDir e @ [''-home-u-demo''], sampleFile),
      (getProjectsDir e @ [''-home-u-demo''], cacheOnlyFile)]"
  by (simp add: visited_def sampleProjects_def sampleFile_def cacheOnlyFile_def endsWith_def
      suffix_to_prefix)




text \<open>
  Claim C1 as stated fails for an entry that is in the ledger mapping with a time that is
  not truthy: with the ledger \<open>{"s1": 0}\<close> the test \<open>synced[sessionId]\<close> does not skip the
  session \<open>s1\<close>, and the run posts it.
\<close>

theorem zero_ledger_entry_reuploaded:
  "map_of (getAlreadySynced zeroLedgerWorld) (basename_jsonl (fname sampleFile)) = Some 0
   \<and> (getProjectsDir sampleEnv @ [''-home-u-demo''], sampleFile)
        \<in> set (visited sampleEnv sampleProjects)
   \<and> map session_id (drop (length (posts zeroLedgerWorld))
        (posts (syncAll sampleEnv (Some sampleProjects) zeroLedgerWorld))) = [''s1'']"
proof -
  let ?dir = "getProjectsDir sampleEnv @ [''-home-u-demo'']"
  let ?st0 = "startRun zeroLedgerWorld"
  have l: "readLedger (ledgerFile zeroLedgerWorld) = [(''s1'', 0)]" "posts zeroLedgerWorld = []"
    by (simp_all add: zeroLedgerWorld_def)
  have n1: "\<not> isSynced [(''s1'', 0)] (basename_jsonl (fname sampleFile))"
    by (simp add: isSynced_def sample_ids)
  have n2: "\<not> isSynced [(''s1'', 0)] (basename_jsonl (fname cacheOnlyFile))"
    by (simp add: isSynced_def sample_ids sample_ids_own)
  have ne: "\<not> (input_tokens (totalUsage (parseSessionFile (content sampleFile))) = 0
      \<and> output_tokens (totalUsage (parseSessionFile (content sampleFile))) = 0)"
    by (simp add: sampleFile_def sample_totals)
  have em: "input_tokens (totalUsage (parseSessionFile (content cacheOnlyFile))) = 0"
    "output_tokens (totalUsage (parseSessionFile (content cacheOnlyFile))) = 0"
    by (simp_all add: cacheOnlyFile_def cacheOnly_totals)
  have nd: "\<not> DRY_RUN sampleEnv"
    by (simp add: sampleEnv_def)
  have acc: "accepted sampleEnv k r" for k r
    by (simp add: accepted_def sampleEnv_def)
  have s1: "posts (processFile sampleEnv [(''s1'', 0)] ?dir sampleFile ?st0)
      = [buildRecord sampleEnv (basename_jsonl (fname sampleFile)) (extractProjectName ?dir)
           sampleFile (parseSessionFile (content sampleFile))]"
    by (simp add: processFile_upload_ok [OF n1 ne nd acc] markSynced_fields startRun_fields l)
  have s2: "posts (processFile sampleEnv [(''s1'', 0)] ?dir cacheOnlyFile st) = posts st" for st
    using nd by (simp add: processFile_empty [OF n2 em] markSynced_fields)
  have "posts (syncAll sampleEnv (Some sampleProjects) zeroLedgerWorld)
      = [buildRecord sampleEnv (basename_jsonl (fname sampleFile)) (extractProjectName ?dir)
           sampleFile (parseSessionFile (content sampleFile))]"
    by (simp add: syncAll_Some sample_visited l s1 s2)
  then show ?thesis
    by (simp add: l session_id_buildRecord sample_ids sample_visited getAlreadySynced_def)
qed

text \<open>
  Claim C1, amended. The model of the ledger file covers a file that is missing, is not
  valid JSON or holds a JSON object of numbers. A session id for which the test
  \<open>synced[sessionId]\<close> on the ledger read at the start of the run is truthy (its entry has
  a non-zero time) is skipped: the step only counts it as skipped, and no post of a run
  carries such a session id. Consequently, after a first run that is not a dry run, in
  which every post was accepted and the clock never read 0, a second run over the same
  projects directory with the ledger the first run left sends no post, leaves the ledger
  file as it is and counts no session as uploaded, whatever its environment.
\<close>

theorem syncAll_idempotent:
  "(isSynced synced (basename_jsonl (fname f))
      \<longrightarrow> processFile e synced dir f st = st\<lparr>skipped := skipped st + 1\<rparr>)
   \<and> (\<forall>r\<in>set (drop (length (posts w)) (posts (syncAll e projects w))).
         \<not> isSynced (getAlreadySynced w) (session_id r))
   \<and> (\<not> DRY_RUN e \<and> (\<forall>k. Date_now e k \<noteq> 0)
        \<and> (\<forall>i. length (posts w) \<le> i \<and> i < length (posts (syncAll e projects w))
               \<longrightarrow> accepted e i (posts (syncAll e projects w) ! i))
        \<and> ledgerFile w' = ledgerFile (syncAll e projects w)
      \<longrightarrow> posts (syncAll e' projects w') = posts w'
          \<and> ledgerFile (syncAll e' projects w') = ledgerFile w'
          \<and> uploaded (syncAll e' projects w') = 0)"
proof (intro conjI impI)
  assume "isSynced synced (basename_jsonl (fname f))"
  then show "processFile e synced dir f st = st\<lparr>skipped := skipped st + 1\<rparr>"
    by (rule processFile_skip)
next
  show "\<forall>r\<in>set (drop (length (posts w)) (posts (syncAll e projects w))).
         \<not> isSynced (getAlreadySynced w) (session_id r)"
  proof (cases projects)
    case None
    then show ?thesis by (simp add: syncAll_def startRun_fields)
  next
    case (Some projectDirs)
    from fold_posts [of e "readLedger (ledgerFile w)" "visited e projectDirs" "startRun w"]
    obtain new where
      "posts (syncAll e (Some projectDirs) w) = posts w @ new"
      "\<forall>r\<in>set new. \<not> isSynced (readLedger (ledgerFile w)) (session_id r)"
      unfolding syncAll_Some startRun_fields by blast
    then show ?thesis
      using Some by (simp add: getAlreadySynced_def)
  qed
next
  assume a: "\<not> DRY_RUN e \<and> (\<forall>k. Date_now e k \<noteq> 0)
        \<and> (\<forall>i. length (posts w) \<le> i \<and> i < length (posts (syncAll e projects w))
               \<longrightarrow> accepted e i (posts (syncAll e projects w) ! i))
        \<and> ledgerFile w' = ledgerFile (syncAll e projects w)"
  have "posts (syncAll e' projects w') = posts w'
          \<and> ledgerFile (syncAll e' projects w') = ledgerFile w'
          \<and> uploaded (syncAll e' projects w') = 0"
  proof (cases projects)
    case None
    then show ?thesis by (simp add: syncAll_def startRun_fields)
  next
    case (Some projectDirs)
    let ?run = "fold (\<lambda>p. processFile e (readLedger (ledgerFile w)) (fst p) (snd p))
        (visited e projectDirs) (startRun w)"
    have run: "syncAll e projects w = ?run"
      using Some by (simp add: syncAll_Some)
    have "\<forall>p\<in>set (visited e projectDirs).
        isSynced (readLedger (ledgerFile ?run)) (basename_jsonl (fname (snd p)))"
    proof (rule fold_marks_all)
      show "\<not> DRY_RUN e" "\<forall>k. Date_now e k \<noteq> 0" using a by simp_all
      show "\<forall>x. isSynced (readLedger (ledgerFile w)) x
          \<longrightarrow> isSynced (readLedger (ledgerFile (startRun w))) x"
        by (simp add: startRun_fields)
      show "\<forall>i. length (posts (startRun w)) \<le> i \<and> i < length (posts ?run)
          \<longrightarrow> accepted e i (posts ?run ! i)"
        using a unfolding run by (simp add: startRun_fields)
    qed
    then have "\<forall>f\<in>set (map snd (visited e projectDirs)).
        isSynced (readLedger (ledgerFile w')) (basename_jsonl (fname f))"
      using a unfolding run by simp
    then have "\<forall>p\<in>set (visited e' projectDirs).
        isSynced (readLedger (ledgerFile w')) (basename_jsonl (fname (snd p)))"
      unfolding map_snd_visited [of e projectDirs e'] by simp
    from fold_all_skipped [OF this]
    have "syncAll e' (Some projectDirs) w' =
        (startRun w')\<lparr>skipped := skipped (startRun w') + length (visited e' projectDirs)\<rparr>"
      unfolding syncAll_Some .
    then show ?thesis
      using Some by (simp add: startRun_fields)
  qed
  then show "posts (syncAll e' projects w') = posts w'"
    and "ledgerFile (syncAll e' projects w') = ledgerFile w'"
    and "uploaded (syncAll e' projects w') = 0"
    by simp_all
qed

theorem syncAll_idempotent_witness:
  "isSynced [(''s1'', 1767225600000)] (basename_jsonl (fname sampleFile))
   \<and> processFile sampleEnv [(''s1'', 1767225600000)] (getProjectsDir sampleEnv @ [''-home-u-demo''])
         sampleFile (startRun sampleWorld)
       = (startRun sampleWorld)\<lparr>skipped := skipped (startRun sampleWorld) + 1\<rparr>
   \<and> \<not> DRY_RUN sampleEnv \<and> (\<forall>k. Date_now sampleEnv k \<noteq> 0)
   \<and> (\<forall>i r. accepted sampleEnv i r)
   \<and> posts (syncAll sampleEnv (Some sampleProjects)
         \<lparr>ledgerFile = ledgerFile (syncAll sampleEnv (Some sampleProjects) sampleWorld),
          posts = [], clock = 0\<rparr>) = []
   \<and> uploaded (syncAll sampleEnv (Some sampleProjects)
         \<lparr>ledgerFile = ledgerFile (syncAll sampleEnv (Some sampleProjects) sampleWorld),
          posts = [], clock = 0\<rparr>) = 0"
proof -
  let ?w' = "\<lparr>ledgerFile = ledgerFile (syncAll sampleEnv (Some sampleProjects) sampleWorld),
          posts = [], clock = 0\<rparr>"
  have h1: "isSynced [(''s1'', 1767225600000)] (basename_jsonl (fname sampleFile))"
    by (simp add: isSynced_def basename_jsonl_def sampleFile_def)
  have h2: "\<not> DRY_RUN sampleEnv" "\<forall>k. Date_now sampleEnv k \<noteq> 0"
    by (simp_all add: sampleEnv_def)
  have h3: "\<forall>i. length (posts sampleWorld) \<le> i
            \<and> i < length (posts (syncAll sampleEnv (Some sampleProjects) sampleWorld))
          \<longrightarrow> accepted sampleEnv i (posts (syncAll sampleEnv (Some sampleProjects) sampleWorld) ! i)"
    by (simp add: accepted_def sampleEnv_def)
  have h4: "ledgerFile ?w' = ledgerFile (syncAll sampleEnv (Some sampleProjects) sampleWorld)"
    "posts ?w' = []"
    by simp_all
  have h5: "\<forall>i r. accepted sampleEnv i r"
    by (simp add: accepted_def sampleEnv_def)
  show ?thesis
    using h1 h2 h3 h4 h5
      syncAll_idempotent [where synced = "[(''s1'', 1767225600000)]" and f = sampleFile
        and e = sampleEnv and dir = "getProjectsDir sampleEnv @ [''-home-u-demo'']"
        and st = "startRun sampleWorld" and w = sampleWorld and projects = "Some sampleProjects"
        and w' = ?w' and e' = sampleEnv]
    by metis
qed





lemma uploadRecord_Inl:
  "snd (uploadRecord e r w) = Inl err \<Longrightarrow> \<not> accepted e (length (posts w)) r"
  by (auto simp: uploadRecord_def accepted_def Let_def split: response.splits if_splits)

text \<open>
  Claim C8. In non-dry-run mode, when the upload of a session the driver reaches throws,
  the step appends that one post and adds the cost to the grand total and changes nothing
  else: the ledger file is as before (no entry is created) and the session is not counted
  as uploaded. The run goes on: the sessions after it are processed from that state. No
  session is posted again within a run: the session ids of the posts of a run form a
  subsequence of the session ids of the files it walks through.
\<close>

theorem upload_failure_not_marked:
  "(\<not> DRY_RUN e \<and> \<not> isSynced synced (basename_jsonl (fname f))
      \<and> \<not> (input_tokens (totalUsage (parseSessionFile (content f))) = 0
             \<and> output_tokens (totalUsage (parseSessionFile (content f))) = 0)
      \<and> snd (uploadRecord e
             (buildRecord e (basename_jsonl (fname f)) (extractProjectName dir) f
                (parseSessionFile (content f)))
             (st\<lparr>grandTotal := grandTotal st + totalCost (parseSessionFile (content f))\<rparr>))
          = Inl err
    \<longrightarrow>
      processFile e synced dir f st =
        st\<lparr>grandTotal := grandTotal st + totalCost (parseSessionFile (content f)),
           posts := posts st @ [buildRecord e (basename_jsonl (fname f)) (extractProjectName dir) f
                (parseSessionFile (content f))]\<rparr>
      \<and> ledgerFile (processFile e synced dir f st) = ledgerFile st
      \<and> uploaded (processFile e synced dir f st) = uploaded st
      \<and> (synced = getAlreadySynced w \<and> visited e projectDirs = before @ (dir, f) # after
           \<and> st = fold (\<lambda>p. processFile e synced (fst p) (snd p)) before (startRun w)
         \<longrightarrow> syncAll e (Some projectDirs) w =
               fold (\<lambda>p. processFile e synced (fst p) (snd p)) after
                 (st\<lparr>grandTotal := grandTotal st + totalCost (parseSessionFile (content f)),
                     posts := posts st @ [buildRecord e (basename_jsonl (fname f))
                       (extractProjectName dir) f (parseSessionFile (content f))]\<rparr>)))
   \<and> subseq (map session_id (drop (length (posts w)) (posts (syncAll e (Some projectDirs) w))))
        (map (\<lambda>p. basename_jsonl (fname (snd p))) (visited e projectDirs))"
proof (intro conjI impI)
  let ?r = "buildRecord e (basename_jsonl (fname f)) (extractProjectName dir) f
                (parseSessionFile (content f))"
  let ?st1 = "st\<lparr>grandTotal := grandTotal st + totalCost (parseSessionFile (content f))\<rparr>"
  assume a: "\<not> DRY_RUN e \<and> \<not> isSynced synced (basename_jsonl (fname f))
      \<and> \<not> (input_tokens (totalUsage (parseSessionFile (content f))) = 0
             \<and> output_tokens (totalUsage (parseSessionFile (content f))) = 0)
      \<and> snd (uploadRecord e ?r ?st1) = Inl err"
  then have "\<not> accepted e (length (posts ?st1)) ?r"
    using uploadRecord_Inl by blast
  then have na: "\<not> accepted e (length (posts st)) ?r"
    by simp
  show step: "processFile e synced dir f st = ?st1\<lparr>posts := posts st @ [?r]\<rparr>"
    using a na by (simp add: processFile_upload_failed)
  show "ledgerFile (processFile e synced dir f st) = ledgerFile st"
    and "uploaded (processFile e synced dir f st) = uploaded st"
    unfolding step by simp_all
  show "syncAll e (Some projectDirs) w =
      fold (\<lambda>p. processFile e synced (fst p) (snd p)) after (?st1\<lparr>posts := posts st @ [?r]\<rparr>)"
    if b: "synced = getAlreadySynced w \<and> visited e projectDirs = before @ (dir, f) # after
           \<and> st = fold (\<lambda>p. processFile e synced (fst p) (snd p)) before (startRun w)"
  proof -
    have "syncAll e (Some projectDirs) w =
        fold (\<lambda>p. processFile e synced (fst p) (snd p)) after (processFile e synced dir f st)"
      using b by (simp add: syncAll_Some getAlreadySynced_def)
    then show ?thesis
      unfolding step .
  qed
next
  from fold_posts [of e "readLedger (ledgerFile w)" "visited e projectDirs" "startRun w"]
  obtain new where
    "posts (syncAll e (Some projectDirs) w) = posts w @ new"
    "subseq (map session_id new) (map (\<lambda>p. basename_jsonl (fname (snd p))) (visited e projectDirs))"
    unfolding syncAll_Some startRun_fields by blast
  then show "subseq (map session_id (drop (length (posts w)) (posts (syncAll e (Some projectDirs) w))))
        (map (\<lambda>p. basename_jsonl (fname (snd p))) (visited e projectDirs))"
    by simp
qed

theorem upload_failure_not_marked_witness:
  "\<not> DRY_RUN rejectingEnv \<and> \<not> isSynced [] (basename_jsonl (fname sampleFile))
   \<and> \<not> (input_tokens (totalUsage (parseSessionFile (content sampleFile))) = 0
          \<and> output_tokens (totalUsage (parseSessionFile (content sampleFile))) = 0)
   \<and> snd (uploadRecord rejectingEnv
          (buildRecord rejectingEnv (basename_jsonl (fname sampleFile))
             (extractProjectName (getProjectsDir rejectingEnv @ [''-home-u-demo''])) sampleFile
             (parseSessionFile (content sampleFile)))
          ((startRun sampleWorld)\<lparr>grandTotal := grandTotal (startRun sampleWorld)
              + totalCost (parseSessionFile (content sampleFile))\<rparr>))
        = Inl (UploadFailed 500 ''Internal Server Error'')
   \<and> ledgerFile (processFile rejectingEnv [] (getProjectsDir rejectingEnv @ [''-home-u-demo''])
         sampleFile (startRun sampleWorld)) = ledgerFile (startRun sampleWorld)
   \<and> uploaded (processFile rejectingEnv [] (getProjectsDir rejectingEnv @ [''-home-u-demo''])
         sampleFile (startRun sampleWorld)) = uploaded (startRun sampleWorld)
   \<and> syncAll rejectingEnv (Some sampleProjects) sampleWorld =
       fold (\<lambda>p. processFile rejectingEnv [] (fst p) (snd p))
         [(getProjectsDir rejectingEnv @ [''-home-u-demo''], cacheOnlyFile)]
         ((startRun sampleWorld)
            \<lparr>grandTotal := grandTotal (startRun sampleWorld)
               + totalCost (parseSessionFile (content sampleFile)),
             posts := posts (startRun sampleWorld) @
               [buildRecord rejectingEnv (basename_jsonl (fname sampleFile))
                 (extractProjectName (getProjectsDir rejectingEnv @ [''-home-u-demo''])) sampleFile
                 (parseSessionFile (content sampleFile))]\<rparr>)"
proof -
  let ?dir = "getProjectsDir rejectingEnv @ [''-home-u-demo'']"
  have h1: "\<not> DRY_RUN rejectingEnv"
    by (simp add: rejectingEnv_def sampleEnv_def)
  have h2: "\<not> isSynced [] (basename_jsonl (fname sampleFile))"
    by (rule sample_not_synced)
  have h3: "\<not> (input_tokens (totalUsage (parseSessionFile (content sampleFile))) = 0
          \<and> output_tokens (totalUsage (parseSessionFile (content sampleFile))) = 0)"
    by (simp add: sampleFile_def sample_totals)
  have h4: "snd (uploadRecord rejectingEnv r st) = Inl (UploadFailed 500 ''Internal Server Error'')"
    for r and st :: run
    by (simp add: uploadRecord_def rejectingEnv_def Let_def)
  have h5: "[] = getAlreadySynced sampleWorld"
    "visited rejectingEnv sampleProjects = [] @ (?dir, sampleFile) # [(?dir, cacheOnlyFile)]"
    "startRun sampleWorld = fold (\<lambda>p. processFile rejectingEnv [] (fst p) (snd p)) [] (startRun sampleWorld)"
    by (simp_all add: getAlreadySynced_def sampleWorld_def sample_visited)
  show ?thesis
    using h1 h2 h3 h4 h5
      upload_failure_not_marked [where e = rejectingEnv and synced = "[]" and f = sampleFile
        and dir = ?dir and st = "startRun sampleWorld"
        and err = "UploadFailed 500 ''Internal Server Error''" and w = sampleWorld
        and projectDirs = sampleProjects and before = "[]" and after = "[(?dir, cacheOnlyFile)]"]
    by blast
qed

text \<open>
  Claim C9. In dry-run mode no step writes the ledger file or sends a post, whether the
  session is empty or not, and so a whole run leaves the ledger file and the posts as
  they were.
\<close>

theorem dry_run_no_effect:
  "DRY_RUN e \<longrightarrow>
     ledgerFile (processFile e synced dir f st) = ledgerFile st
     \<and> posts (processFile e synced dir f st) = posts st
     \<and> ledgerFile (syncAll e projects w) = ledgerFile w
     \<and> posts (syncAll e projects w) = posts w"
proof (intro impI conjI)
  assume d: "DRY_RUN e"
  show "ledgerFile (processFile e synced dir f st) = ledgerFile st"
    and "posts (processFile e synced dir f st) = posts st"
    using ledger_processFile_dry [OF d] by simp_all
  have run: "ledgerFile (syncAll e projects w) = ledgerFile w \<and> posts (syncAll e projects w) = posts w"
  proof (cases projects)
    case None
    then show ?thesis by (simp add: syncAll_def startRun_fields)
  next
    case (Some projectDirs)
    show ?thesis
      unfolding Some syncAll_Some
      using fold_dry [OF d, of "readLedger (ledgerFile w)" "visited e projectDirs" "startRun w"]
      by (simp add: startRun_fields)
  qed
  then show "ledgerFile (syncAll e projects w) = ledgerFile w"
    and "posts (syncAll e projects w) = posts w"
    by simp_all
qed

theorem dry_run_no_effect_witness:
  "DRY_RUN (sampleEnv\<lparr>DRY_RUN := True\<rparr>)
   \<and> ledgerFile (processFile (sampleEnv\<lparr>DRY_RUN := True\<rparr>) []
         (getProjectsDir sampleEnv @ [''-home-u-demo'']) sampleFile (startRun sampleWorld))
       = ledgerFile (startRun sampleWorld)
   \<and> posts (processFile (sampleEnv\<lparr>DRY_RUN := True\<rparr>) []
         (getProjectsDir sampleEnv @ [''-home-u-demo'']) cacheOnlyFile (startRun sampleWorld))
       = posts (startRun sampleWorld)
   \<and> ledgerFile (syncAll (sampleEnv\<lparr>DRY_RUN := True\<rparr>) (Some sampleProjects) sampleWorld)
       = ledgerFile sampleWorld
   \<and> posts (syncAll (sampleEnv\<lparr>DRY_RUN := True\<rparr>) (Some sampleProjects) sampleWorld)
       = posts sampleWorld"
proof -
  have h: "DRY_RUN (sampleEnv\<lparr>DRY_RUN := True\<rparr>)"
    by simp
  show ?thesis
    using h
      dry_run_no_effect [where e = "sampleEnv\<lparr>DRY_RUN := True\<rparr>" and synced = "[]"
        and dir = "getProjectsDir sampleEnv @ [''-home-u-demo'']" and f = sampleFile
        and st = "startRun sampleWorld" and projects = "Some sampleProjects" and w = sampleWorld]
      dry_run_no_effect [where e = "sampleEnv\<lparr>DRY_RUN := True\<rparr>" and synced = "[]"
        and dir = "getProjectsDir sampleEnv @ [''-home-u-demo'']" and f = cacheOnlyFile
        and st = "startRun sampleWorld" and projects = "Some sampleProjects" and w = sampleWorld]
    by blast
qed

lemma calculateCost_cache_only:
  assumes "input_tokens t = 0" "output_tokens t = 0"
    and "0 \<le> cache_creation_input_tokens t" "0 \<le> cache_read_input_tokens t"
  shows "calculateCost (asUsage t) fam =
     of_int (Math_round
        (of_int (cache_creation_input_tokens t) * cache_write_per_m (pricingFor fam)
         + of_int (cache_read_input_tokens t) * cache_read_per_m (pricingFor fam))) / 1000000"
proof -
  have "max 0 (normalInput (asUsage t)) = 0"
    using assms by (simp add: normalInput_def asUsage_def)
  then have "unroundedCost (asUsage t) (pricingFor fam) * 1000000 =
      of_int (cache_creation_input_tokens t) * cache_write_per_m (pricingFor fam)
         + of_int (cache_read_input_tokens t) * cache_read_per_m (pricingFor fam)"
    using assms(2)
    by (simp add: unroundedCost_def inputCost_def cacheWriteCost_def cacheReadCost_def
        outputCost_def asUsage_def)
  then show ?thesis
    by (simp add: calculateCost_unrounded)
qed

text \<open>
  Claim C10 as stated fails in its last part: the session \<open>cacheOnlySession\<close> has zero
  input and output totals and one cache-read token, and the cost calculator applied to its
  totals at \<open>claude-sonnet-4\<close> rates returns 0, because 0.3 millionths round to 0.
\<close>

theorem cache_only_cost_rounds_to_zero:
  "input_tokens (totalUsage (parseSessionFile cacheOnlySession)) = 0
   \<and> output_tokens (totalUsage (parseSessionFile cacheOnlySession)) = 0
   \<and> 0 < cache_read_input_tokens (totalUsage (parseSessionFile cacheOnlySession))
   \<and> \<not> 0 < calculateCost (asUsage (totalUsage (parseSessionFile cacheOnlySession)))
           ''claude-sonnet-4''"
  by (simp add: cacheOnly_totals asUsage_def calculateCost_def pricingFor_def PRICING_def
      unroundedCost_def inputCost_def cacheWriteCost_def cacheReadCost_def outputCost_def
      normalInput_def Math_round_def Let_def floor_rat_divide_numeral)

text \<open>
  Claim C10, amended. A session whose aggregate has zero total input and zero total output
  tokens is classified as empty whatever its cache totals are: the step sends no post,
  and when the driver reaches the session it only marks it (not in dry-run mode) and
  counts it as skipped. For non-negative cache totals the cost calculator applied to the
  totals is not negative, and it is strictly positive exactly when
  \<open>cacheWrite * cacheWriteRate + cacheRead * cacheReadRate\<close> is at least 1/2, that is when
  the cost before rounding reaches half a millionth.
\<close>

theorem cache_only_session_is_empty:
  "input_tokens (totalUsage (parseSessionFile (content f))) = 0
     \<and> output_tokens (totalUsage (parseSessionFile (content f))) = 0
     \<and> 0 \<le> cache_creation_input_tokens (totalUsage (parseSessionFile (content f)))
     \<and> 0 \<le> cache_read_input_tokens (totalUsage (parseSessionFile (content f)))
   \<longrightarrow>
     posts (processFile e synced dir f st) = posts st
     \<and> (\<not> isSynced synced (basename_jsonl (fname f)) \<longrightarrow>
          processFile e synced dir f st =
            (if DRY_RUN e then st\<lparr>skipped := skipped st + 1\<rparr>
             else (markSynced e (basename_jsonl (fname f)) st)\<lparr>skipped := skipped st + 1\<rparr>))
     \<and> 0 \<le> calculateCost (asUsage (totalUsage (parseSessionFile (content f)))) fam
     \<and> (0 < calculateCost (asUsage (totalUsage (parseSessionFile (content f)))) fam
          \<longleftrightarrow> 1 / 2 \<le>
            of_int (cache_creation_input_tokens (totalUsage (parseSessionFile (content f))))
              * cache_write_per_m (pricingFor fam)
            + of_int (cache_read_input_tokens (totalUsage (parseSessionFile (content f))))
              * cache_read_per_m (pricingFor fam))"
proof (intro impI conjI)
  let ?t = "totalUsage (parseSessionFile (content f))"
  let ?x = "rat_of_int (cache_creation_input_tokens ?t) * cache_write_per_m (pricingFor fam)
            + rat_of_int (cache_read_input_tokens ?t) * cache_read_per_m (pricingFor fam)"
  assume a: "input_tokens ?t = 0 \<and> output_tokens ?t = 0
     \<and> 0 \<le> cache_creation_input_tokens ?t \<and> 0 \<le> cache_read_input_tokens ?t"
  show "posts (processFile e synced dir f st) = posts st"
    using a posts_processFile [of e synced dir f st] by blast
  show "processFile e synced dir f st =
            (if DRY_RUN e then st\<lparr>skipped := skipped st + 1\<rparr>
             else (markSynced e (basename_jsonl (fname f)) st)\<lparr>skipped := skipped st + 1\<rparr>)"
    if "\<not> isSynced synced (basename_jsonl (fname f))"
    using that a processFile_empty [of synced f e dir st] by blast
  have c: "calculateCost (asUsage ?t) fam = of_int (Math_round ?x) / 1000000"
    using a by (simp add: calculateCost_cache_only)
  have "0 \<le> ?x"
    using a by (simp add: pricingFor_rates)
  then show "0 \<le> calculateCost (asUsage ?t) fam"
    unfolding c by (simp add: Math_round_nonneg)
  show "0 < calculateCost (asUsage ?t) fam \<longleftrightarrow> 1 / 2 \<le> ?x"
    unfolding c using Math_round_pos_iff [of ?x] by simp
qed

theorem cache_only_session_is_empty_witness:
  "input_tokens (totalUsage (parseSessionFile (content cacheOnlyFile))) = 0
   \<and> output_tokens (totalUsage (parseSessionFile (content cacheOnlyFile))) = 0
   \<and> 0 \<le> cache_creation_input_tokens (totalUsage (parseSessionFile (content cacheOnlyFile)))
   \<and> 0 \<le> cache_read_input_tokens (totalUsage (parseSessionFile (content cacheOnlyFile)))
   \<and> \<not> isSynced [] (basename_jsonl (fname cacheOnlyFile))
   \<and> posts (processFile sampleEnv [] (getProjectsDir sampleEnv @ [''-home-u-demo''])
         cacheOnlyFile (startRun sampleWorld)) = posts (startRun sampleWorld)
   \<and> 1 / 2 \<le> rat_of_int (cache_creation_input_tokens (totalUsage (parseSessionFile (content cacheOnlyFile))))
              * cache_write_per_m (pricingFor ''claude-opus-4'')
            + rat_of_int (cache_read_input_tokens (totalUsage (parseSessionFile (content cacheOnlyFile))))
              * cache_read_per_m (pricingFor ''claude-opus-4'')
   \<and> 0 < calculateCost (asUsage (totalUsage (parseSessionFile (content cacheOnlyFile))))
         ''claude-opus-4''"
proof -
  let ?t = "totalUsage (parseSessionFile (content cacheOnlyFile))"
  have t: "?t = \<lparr>input_tokens = 0, output_tokens = 0, cache_creation_input_tokens = 0,
      cache_read_input_tokens = 1\<rparr>"
    by (simp add: cacheOnlyFile_def cacheOnly_totals)
  have h1: "input_tokens ?t = 0 \<and> output_tokens ?t = 0
     \<and> 0 \<le> cache_creation_input_tokens ?t \<and> 0 \<le> cache_read_input_tokens ?t"
    by (simp add: t)
  have h2: "\<not> isSynced [] (basename_jsonl (fname cacheOnlyFile))"
    by (rule sample_not_synced)
  have h3: "1 / 2 \<le> rat_of_int (cache_creation_input_tokens ?t)
              * cache_write_per_m (pricingFor ''claude-opus-4'')
            + rat_of_int (cache_read_input_tokens ?t) * cache_read_per_m (pricingFor ''claude-opus-4'')"
    by (simp add: t pricingFor_def PRICING_def)
  show ?thesis
    using h1 h2 h3
      cache_only_session_is_empty [where f = cacheOnlyFile and e = sampleEnv and synced = "[]"
        and dir = "getProjectsDir sampleEnv @ [''-home-u-demo'']" and st = "startRun sampleWorld"
        and fam = "''claude-opus-4''"]
    by blast
qed

end
